theory Spec2Isabelle
  imports Complex_Main "HOL-Library.Sublist"
begin

section \<open>JavaScript strings and numbers\<close>

text \<open>
  A JavaScript string is a sequence of UTF-16 code units. The Hebrew letters the
  classifier compares against lie outside ASCII, so a string is modelled as the list of
  its code units; \<open>ascii\<close> embeds an ASCII literal.
\<close>

type_synonym jsstring = "nat list"

definition ascii :: "string \<Rightarrow> jsstring" where
  "ascii s = map of_char s"

text \<open>\<open>WhiteSpace\<close> and \<open>LineTerminator\<close> code units: what \<open>trim()\<close> strips and \<open>\\s\<close> matches.\<close>

definition isWhiteSpace :: "nat \<Rightarrow> bool" where
  "isWhiteSpace c =
     (c = 9 \<or> c = 10 \<or> c = 11 \<or> c = 12 \<or> c = 13 \<or> c = 32 \<or> c = 160 \<or> c = 5760 \<or>
      (8192 \<le> c \<and> c \<le> 8202) \<or> c = 8232 \<or> c = 8233 \<or> c = 8239 \<or> c = 8287 \<or>
      c = 12288 \<or> c = 65279)"

definition trim :: "jsstring \<Rightarrow> jsstring" where
  "trim s = rev (dropWhile isWhiteSpace (rev (dropWhile isWhiteSpace s)))"

text \<open>\<open>s.includes(p)\<close>: \<open>p\<close> occurs in \<open>s\<close> as a contiguous run of code units.\<close>

definition str_includes :: "jsstring \<Rightarrow> jsstring \<Rightarrow> bool" where
  "str_includes s p = sublist p s"

definition isDigit :: "nat \<Rightarrow> bool" where
  "isDigit c = (48 \<le> c \<and> c \<le> 57)"

text \<open>
  A JavaScript number is modelled as \<open>int option\<close>, \<open>None\<close> standing for \<open>NaN\<close>. The
  program only ever computes with small integers (minutes of a day), on which double
  arithmetic is exact.
\<close>

type_synonym jsnum = "int option"

definition decimal :: "jsstring \<Rightarrow> nat" where
  "decimal ds = foldl (\<lambda>a c. 10 * a + (c - 48)) 0 ds"

text \<open>
  \<open>Number(s)\<close> on the fragment the program feeds it: an optional minus sign followed by
  decimal digits. Every other string is mapped to \<open>NaN\<close>; JavaScript also accepts the
  empty string, surrounding white space, fractions, exponents and radix prefixes, none
  of which occurs in a time of day.
\<close>

definition Number :: "jsstring \<Rightarrow> jsnum" where
  "Number s =
     (case s of
        [] \<Rightarrow> None
      | c # cs \<Rightarrow>
          if c = 45 then (if cs \<noteq> [] \<and> list_all isDigit cs then Some (- int (decimal cs)) else None)
          else if list_all isDigit s then Some (int (decimal s)) else None)"

fun decimalDigits :: "nat \<Rightarrow> jsstring" where
  "decimalDigits n = (if n < 10 then [48 + n] else decimalDigits (n div 10) @ [48 + n mod 10])"

declare decimalDigits.simps [simp del]

text \<open>\<open>String(x)\<close> for an integral number or \<open>NaN\<close>.\<close>

definition String :: "jsnum \<Rightarrow> jsstring" where
  "String x =
     (case x of
        None \<Rightarrow> ascii ''NaN''
      | Some n \<Rightarrow> if n < 0 then 45 # decimalDigits (nat (- n)) else decimalDigits (nat n))"

text \<open>\<open>s.padStart(n, pad)\<close>.\<close>

definition padStart :: "jsstring \<Rightarrow> nat \<Rightarrow> jsstring \<Rightarrow> jsstring" where
  "padStart s n pad =
     (if n \<le> length s \<or> pad = [] then s
      else take (n - length s) (concat (replicate (n - length s) pad)) @ s)"

text \<open>\<open>s.split(sep)\<close> for a separator of one code unit.\<close>

fun split_js :: "jsstring \<Rightarrow> nat \<Rightarrow> jsstring list" where
  "split_js [] sep = [[]]"
| "split_js (c # cs) sep =
     (if c = sep then [] # split_js cs sep
      else (c # hd (split_js cs sep)) # tl (split_js cs sep))"

text \<open>Array destructuring \<open>[a, b] = xs\<close>: a missing element is \<open>undefined\<close>, which arithmetic turns into \<open>NaN\<close>.\<close>

definition element :: "jsnum list \<Rightarrow> nat \<Rightarrow> jsnum" where
  "element xs i = (if i < length xs then xs ! i else None)"

definition num_add :: "jsnum \<Rightarrow> jsnum \<Rightarrow> jsnum" where
  "num_add a b = (case (a, b) of (Some x, Some y) \<Rightarrow> Some (x + y) | _ \<Rightarrow> None)"

definition num_mul :: "jsnum \<Rightarrow> jsnum \<Rightarrow> jsnum" where
  "num_mul a b = (case (a, b) of (Some x, Some y) \<Rightarrow> Some (x * y) | _ \<Rightarrow> None)"

text \<open>\<open>Math.floor(a / b)\<close> for integral \<open>a\<close> and positive integral \<open>b\<close>.\<close>

definition floor_div :: "jsnum \<Rightarrow> int \<Rightarrow> jsnum" where
  "floor_div a b = map_option (\<lambda>x. x div b) a"

text \<open>\<open>a % b\<close>: the remainder takes the sign of the dividend.\<close>

definition remainder :: "jsnum \<Rightarrow> int \<Rightarrow> jsnum" where
  "remainder a b = map_option (\<lambda>x. if x < 0 then - ((- x) mod b) else x mod b) a"

text \<open>\<open>Math.min\<close> and \<open>Math.max\<close> propagate \<open>NaN\<close>.\<close>

definition Math_min :: "int \<Rightarrow> jsnum \<Rightarrow> jsnum" where
  "Math_min a b = map_option (min a) b"

definition Math_max :: "int \<Rightarrow> jsnum \<Rightarrow> jsnum" where
  "Math_max a b = map_option (max a) b"

section \<open>utils.js\<close>


text \<open>The regular expression \<open>/^([0-1]?[0-9]|2[0-3]):[0-5][0-9]$/\<close>.\<close>

fun isValidTimeFormat :: "jsstring \<Rightarrow> bool" where
  "isValidTimeFormat [h1, h2, c, m1, m2] =
     (((h1 = 48 \<or> h1 = 49) \<and> isDigit h2 \<or> h1 = 50 \<and> 48 \<le> h2 \<and> h2 \<le> 51) \<and>
      c = 58 \<and> 48 \<le> m1 \<and> m1 \<le> 53 \<and> isDigit m2)"
| "isValidTimeFormat [h2, c, m1, m2] =
     (isDigit h2 \<and> c = 58 \<and> 48 \<le> m1 \<and> m1 \<le> 53 \<and> isDigit m2)"
| "isValidTimeFormat _ = False"

section \<open>popup.js\<close>

definition timeToMinutes :: "jsstring \<Rightarrow> jsnum" where
  "timeToMinutes timeString =
     (let parts = map Number (split_js timeString 58);
          hours = element parts 0;
          minutes = element parts 1
      in num_add (num_mul hours (Some 60)) minutes)"

section \<open>constantDataProvider.js\<close>

record timeData =
  checkin :: jsstring
  checkout :: jsstring

record ConstantDataProvider =
  checkinTime :: jsstring
  checkoutTime :: jsstring
  humanize :: bool

text \<open>The successive values that \<open>Math.random()\<close> will return.\<close>

type_synonym random = "nat \<Rightarrow> real"

definition addRandomVariation :: "jsstring \<Rightarrow> real \<Rightarrow> jsstring" where
  "addRandomVariation timeString rnd =
     (let parts = map Number (split_js timeString 58);
          hours = element parts 0;
          minutes = element parts 1;
          totalMinutes = num_add (num_mul hours (Some 60)) minutes;
          variation = \<lfloor>rnd * 41\<rfloor> - 20;
          newTotalMinutes = Math_max 0 (Math_min 1439 (num_add totalMinutes (Some variation)));
          newHours = floor_div newTotalMinutes 60;
          newMinutes = remainder newTotalMinutes 60
      in padStart (String newHours) 2 (ascii ''0'') @ ascii '':'' @
         padStart (String newMinutes) 2 (ascii ''0''))"

text \<open>
  \<open>getTimeData\<close> returns, besides its value, the provider object and the random source as
  the call leaves them.
\<close>

definition getTimeData ::
  "ConstantDataProvider \<Rightarrow> jsstring \<Rightarrow> random \<Rightarrow> timeData \<times> ConstantDataProvider \<times> random" where
  "getTimeData this date rnd =
     (if \<not> humanize this
      then (\<lparr>checkin = checkinTime this, checkout = checkoutTime this\<rparr>, this, rnd)
      else
        let checkinHumanized = addRandomVariation (checkinTime this) (rnd 0);
            checkoutHumanized = addRandomVariation (checkoutTime this) (rnd 1)
        in (\<lparr>checkin = checkinHumanized, checkout = checkoutHumanized\<rparr>, this,
            \<lambda>n. rnd (n + 2)))"

text \<open>A run of calls on one provider object, one call per date.\<close>

fun getTimeDataCalls :: "ConstantDataProvider \<Rightarrow> jsstring list \<Rightarrow> random \<Rightarrow> timeData list" where
  "getTimeDataCalls this [] rnd = []"
| "getTimeDataCalls this (date # dates) rnd =
     (case getTimeData this date rnd of
        (td, this', rnd') \<Rightarrow> td # getTimeDataCalls this' dates rnd')"

text \<open>
  \<open>jittered base out\<close>: \<open>out\<close> is the zero-padded time of day that lies an integer offset
  of at most 20 minutes from \<open>base\<close>, clamped into the day.
\<close>

definition jittered :: "jsstring \<Rightarrow> jsstring \<Rightarrow> bool" where
  "jittered base out =
     (\<exists>T off. timeToMinutes base = Some T \<and> - 20 \<le> off \<and> off \<le> 20 \<and>
        timeToMinutes out = Some (max 0 (min 1439 (T + off))) \<and>
        isValidTimeFormat out \<and> length out = 5)"

section \<open>dataProvider.js\<close>

text \<open>
  What a call of \<open>dataProvider.getTimeData(date)\<close> can do: raise, return \<open>null\<close>, or return
  a pair of times. A provider is a function of the date and of its own state.
\<close>

datatype providerResult = Raises | NoData | TimeData timeData

type_synonym 's dataProvider = "jsstring \<Rightarrow> 's \<Rightarrow> providerResult \<times> 's"

definition DataProvider_getTimeData :: "'s dataProvider" where
  "DataProvider_getTimeData date s = (Raises, s)"

definition ConstantDataProvider_getTimeData :: "(ConstantDataProvider \<times> random) dataProvider" where
  "ConstantDataProvider_getTimeData date s =
     (case getTimeData (fst s) date (snd s) of (td, this', rnd') \<Rightarrow> (TimeData td, (this', rnd')))"

section \<open>The host document\<close>

text \<open>
  Only what the selectors of the program can see is modelled. A \<open>tr\<close> of the table
  carries whether it is the first child of its parent, its first \<open>td.date\<close> (with the
  text of its \<open>.dateText\<close> and \<open>.specialDayDescription\<close> spans, where present), its
  \<open>td.missing\<close> (with the value of its \<open>select.select-box\<close>, where present), the values
  of its first \<open>input.checkIn\<close> and \<open>input.checkOut\<close> (two distinct elements), and the
  events dispatched on them so far. An element marked \<open>hours-report\<close> lists its \<open>tr\<close>
  descendants in document order. The dialog \<open>#freeReporting-dialog\<close> carries its inline
  and computed \<open>display\<close>, its first \<open>.attendance-view\<close>, its \<open>.hours-report\<close> elements in
  document order, each with whether it lies inside that view, and its submit control. The
  document carries whether the trigger control exists, and the dialog.
\<close>

datatype field = CheckIn | CheckOut

datatype domEvent = InputEvent field | ChangeEvent field

record dateTd =
  dateText :: "jsstring option"
  specialDayDescription :: "jsstring option"

record row =
  firstChild :: bool
  dateCell :: "dateTd option"
  missingCell :: "jsstring option option"
  checkIn :: "jsstring option"
  checkOut :: "jsstring option"
  dispatched :: "domEvent list"

record hoursReport =
  insideAttendanceView :: bool
  rows :: "row list"

record attendanceView =
  viewStyleDisplay :: jsstring
  viewComputedDisplay :: jsstring

record submitButton =
  disabled :: bool

record dialog =
  styleDisplay :: jsstring
  computedDisplay :: jsstring
  attendanceView :: "attendanceView option"
  hoursReports :: "hoursReport list"
  submitButton :: "submitButton option"

record document =
  trigger :: bool
  dialog :: "dialog option"

text \<open>
  The result objects of the program: \<open>{ success, message?, error?, warning?, details? }\<close>.
\<close>

record fillDetails =
  filled :: int
  skipped :: int
  errors :: int

datatype details =
    FillDetails fillDetails
  | DialogDetails nat bool
  | SubmittedDetails "fillDetails option"

record result =
  success :: bool
  message :: "jsstring option"
  error :: "jsstring option"
  warning :: "jsstring option"
  details :: "details option"

definition failure :: "jsstring \<Rightarrow> result" where
  "failure e = \<lparr>success = False, message = None, error = Some e, warning = None, details = None\<rparr>"

definition succeeded :: "jsstring \<Rightarrow> result" where
  "succeeded m = \<lparr>success = True, message = Some m, error = None, warning = None, details = None\<rparr>"

section \<open>formManager.js\<close>

text \<open>
  The object that \<open>parseDateRow\<close> returns, with the \<open>skipReason\<close> that \<open>shouldSkipDate\<close>
  assigns later. The first record holds the fields that the single-file content script
  sets; the modular \<open>parseDateRow\<close> adds \<open>missingEventValue\<close>.
\<close>

record legacyDateInfo =
  date :: jsstring
  hebrewDay :: jsstring
  specialText :: jsstring
  fullText :: jsstring
  skipReason :: "jsstring option"

record dateInfo = legacyDateInfo +
  missingEventValue :: jsstring

text \<open>The Hebrew letters alef to tav, \<open>[\<close>U+05D0\<open>-\<close>U+05EA\<open>]\<close>.\<close>

definition isHebrewLetter :: "nat \<Rightarrow> bool" where
  "isHebrewLetter c = (1488 \<le> c \<and> c \<le> 1514)"

text \<open>
  The regular expression \<open>/(\\d{2}\\/\\d{2}\\/\\d{4})\\s*([\<close>U+05D0\<open>-\<close>U+05EA\<open>])/\<close>, first at the start
  of the string, then as \<open>match\<close> searches: at the leftmost position where it matches.
\<close>

fun matchDateAt :: "jsstring \<Rightarrow> (jsstring \<times> jsstring) option" where
  "matchDateAt (d1 # d2 # s1 # m1 # m2 # s2 # y1 # y2 # y3 # y4 # rest) =
     (if isDigit d1 \<and> isDigit d2 \<and> s1 = 47 \<and> isDigit m1 \<and> isDigit m2 \<and> s2 = 47 \<and>
         isDigit y1 \<and> isDigit y2 \<and> isDigit y3 \<and> isDigit y4
      then (case dropWhile isWhiteSpace rest of
              [] \<Rightarrow> None
            | c # _ \<Rightarrow>
                if isHebrewLetter c then Some ([d1, d2, s1, m1, m2, s2, y1, y2, y3, y4], [c])
                else None)
      else None)"
| "matchDateAt _ = None"

fun matchDate :: "jsstring \<Rightarrow> (jsstring \<times> jsstring) option" where
  "matchDate [] = None"
| "matchDate (c # cs) =
     (case matchDateAt (c # cs) of Some m \<Rightarrow> Some m | None \<Rightarrow> matchDate cs)"

definition parseDateRow :: "row \<Rightarrow> dateInfo option" where
  "parseDateRow row =
     (case dateCell row of
        None \<Rightarrow> None
      | Some dateCell' \<Rightarrow>
          (case dateText dateCell' of
             None \<Rightarrow> None
           | Some textContent \<Rightarrow>
               let fullDateText = trim textContent in
               (case matchDate fullDateText of
                  None \<Rightarrow> None
                | Some (dateString, hebrewLetter) \<Rightarrow>
                    let specialText =
                          (case specialDayDescription dateCell' of
                             Some t \<Rightarrow> trim t | None \<Rightarrow> []);
                        missingSelect =
                          (case missingCell row of Some sel \<Rightarrow> sel | None \<Rightarrow> None);
                        missingEventValue =
                          (case missingSelect of Some v \<Rightarrow> v | None \<Rightarrow> ascii ''0'')
                    in Some \<lparr>date = dateString, hebrewDay = hebrewLetter,
                             specialText = specialText, fullText = fullDateText,
                             skipReason = None, missingEventValue = missingEventValue\<rparr>)))"

text \<open>
  \<open>shouldSkipDate\<close> returns its boolean and the \<open>dateInfo\<close> object as it leaves it (it
  assigns \<open>skipReason\<close>). The table \<open>MISSING_EVENT_SKIP_RULES\<close> of the configuration is a
  parameter; a reason that is the empty string is falsy. The letters are vav (U+05D5) and
  shin (U+05E9); the tokens are chet gimel, ayin resh bet, and the two joined by a space.
\<close>

definition shouldSkipDate :: "(jsstring \<rightharpoonup> jsstring) \<Rightarrow> dateInfo \<Rightarrow> bool \<times> dateInfo" where
  "shouldSkipDate skipRules dateInfo =
     (if hebrewDay dateInfo = [1493] \<or> hebrewDay dateInfo = [1513]
      then (True, dateInfo\<lparr>skipReason := Some (ascii ''Weekend ('' @
              (if hebrewDay dateInfo = [1493] then ascii ''Friday'' else ascii ''Saturday'') @
              ascii '')'')\<rparr>)
      else if str_includes (specialText dateInfo) [1495, 1490] \<and>
              \<not> str_includes (specialText dateInfo) [1506, 1512, 1489]
      then (True, dateInfo\<lparr>skipReason := Some (ascii ''Holiday'')\<rparr>)
      else if str_includes (specialText dateInfo) [1506, 1512, 1489, 32, 1495, 1490]
      then (True, dateInfo\<lparr>skipReason := Some (ascii ''Holiday Eve'')\<rparr>)
      else
        (case skipRules (missingEventValue dateInfo) of
           None \<Rightarrow> (False, dateInfo)
         | Some skipReason' \<Rightarrow>
             if skipReason' \<noteq> [] then (True, dateInfo\<lparr>skipReason := Some skipReason'\<rparr>)
             else (False, dateInfo)))"

definition isInputFilled :: "jsstring option \<Rightarrow> bool" where
  "isInputFilled input = (case input of None \<Rightarrow> False | Some v \<Rightarrow> trim v \<noteq> [])"

definition isRowComplete :: "row \<Rightarrow> bool" where
  "isRowComplete row = (isInputFilled (checkIn row) \<and> isInputFilled (checkOut row))"

text \<open>
  \<open>fillRowInputs\<close> returns its result and the row as it leaves it. The pauses between the
  writes are not modelled: the host is taken not to edit the sheet during a fill pass.
\<close>

definition fillRowInputs :: "row \<Rightarrow> timeData \<Rightarrow> jsstring \<Rightarrow> result \<times> row" where
  "fillRowInputs row timeData date' =
     (if checkIn row = None \<or> checkOut row = None
      then (failure (ascii ''Missing time inputs for date '' @ date'), row)
      else
        let row1 =
              (if \<not> isInputFilled (checkIn row)
               then row\<lparr>checkIn := Some (checkin timeData),
                        dispatched := dispatched row @ [InputEvent CheckIn, ChangeEvent CheckIn]\<rparr>
               else row);
            row2 =
              (if \<not> isInputFilled (checkOut row1)
               then row1\<lparr>checkOut := Some (checkout timeData),
                         dispatched := dispatched row1 @ [InputEvent CheckOut, ChangeEvent CheckOut]\<rparr>
               else row1)
        in (\<lparr>success = True, message = None, error = None, warning = None, details = None\<rparr>,
            row2))"

text \<open>The three counters of \<open>fillTimeInputs\<close>.\<close>

record counters =
  filledCount :: int
  skippedCount :: int
  errorCount :: int

text \<open>
  The body of the loop over the date rows, with its \<open>try\<close>/\<open>catch\<close>: the only statement
  of the body that can raise is the call of the provider.
\<close>

definition processRow ::
  "(jsstring \<rightharpoonup> jsstring) \<Rightarrow> 's dataProvider \<Rightarrow> row \<Rightarrow> counters \<times> 's \<Rightarrow> (counters \<times> 's) \<times> row" where
  "processRow skipRules dataProvider row st =
     (case st of (c, s) \<Rightarrow>
       (case parseDateRow row of
          None \<Rightarrow> ((c\<lparr>skippedCount := skippedCount c + 1\<rparr>, s), row)
        | Some dateInfo \<Rightarrow>
            (case shouldSkipDate skipRules dateInfo of (skip, dateInfo) \<Rightarrow>
               if skip then ((c\<lparr>skippedCount := skippedCount c + 1\<rparr>, s), row)
               else if isRowComplete row then ((c\<lparr>skippedCount := skippedCount c + 1\<rparr>, s), row)
               else
                 (case dataProvider (date dateInfo) s of
                    (Raises, s') \<Rightarrow> ((c\<lparr>errorCount := errorCount c + 1\<rparr>, s'), row)
                  | (NoData, s') \<Rightarrow> ((c\<lparr>errorCount := errorCount c + 1\<rparr>, s'), row)
                  | (TimeData timeData, s') \<Rightarrow>
                      (case fillRowInputs row timeData (date dateInfo) of (fillResult, row') \<Rightarrow>
                         if success fillResult
                         then ((c\<lparr>filledCount := filledCount c + 1\<rparr>, s'), row')
                         else ((c\<lparr>errorCount := errorCount c + 1\<rparr>, s'), row'))))))"

fun forRows ::
  "(jsstring \<rightharpoonup> jsstring) \<Rightarrow> 's dataProvider \<Rightarrow> row list \<Rightarrow> counters \<times> 's \<Rightarrow> (counters \<times> 's) \<times> row list" where
  "forRows skipRules dataProvider [] st = (st, [])"
| "forRows skipRules dataProvider (row # dateRows) st =
     (case processRow skipRules dataProvider row st of (st', row') \<Rightarrow>
        (case forRows skipRules dataProvider dateRows st' of (st'', dateRows') \<Rightarrow>
           (st'', row' # dateRows')))"

text \<open>\<open>querySelectorAll('tr:not(:first-child)')\<close>, and the table with those rows replaced.\<close>

definition dateRowsOf :: "hoursReport \<Rightarrow> row list" where
  "dateRowsOf timeTable = filter (\<lambda>r. \<not> firstChild r) (rows timeTable)"

fun putRows :: "row list \<Rightarrow> row list \<Rightarrow> row list" where
  "putRows [] dateRows = []"
| "putRows (r # rs) dateRows =
     (if firstChild r then r # putRows rs dateRows
      else (case dateRows of [] \<Rightarrow> r # putRows rs [] | d # ds \<Rightarrow> d # putRows rs ds))"

text \<open>
  \<open>fillTimeInputs\<close> returns its result, the provider state and the document as it leaves
  them. No statement outside the loop body can raise, so the outer \<open>catch\<close> is not
  reached.
\<close>

definition fillTimeInputs ::
  "(jsstring \<rightharpoonup> jsstring) \<Rightarrow> 's dataProvider \<Rightarrow> 's \<Rightarrow> document \<Rightarrow> result \<times> 's \<times> document" where
  "fillTimeInputs skipRules dataProvider s doc =
     (case dialog doc of
        None \<Rightarrow> (failure (ascii ''Dialog not found''), s, doc)
      | Some dialog' \<Rightarrow>
          (case hoursReports dialog' of
             [] \<Rightarrow> (failure (ascii ''Time table not found in dialog''), s, doc)
           | timeTable # others \<Rightarrow>
               (case forRows skipRules dataProvider (dateRowsOf timeTable)
                       (\<lparr>filledCount = 0, skippedCount = 0, errorCount = 0\<rparr>, s) of
                  ((c, s'), dateRows') \<Rightarrow>
                    (\<lparr>success = True,
                      message = Some (ascii ''Successfully filled '' @ String (Some (filledCount c)) @
                                      ascii '' working days''),
                      error = None, warning = None,
                      details = Some (FillDetails \<lparr>filled = filledCount c,
                                  skipped = skippedCount c, errors = errorCount c\<rparr>)\<rparr>,
                     s',
                     doc\<lparr>dialog := Some (dialog'\<lparr>hoursReports :=
                            timeTable\<lparr>rows := putRows (rows timeTable) dateRows'\<rparr> # others\<rparr>)\<rparr>))))"

section \<open>dialogManager.js\<close>

text \<open>
  The host page renders on its own schedule. What it does is a parameter: a function that
  maps an event (a click of the program, or a pause of the program) to the next state of
  the host and its document. The world threaded through the program holds the document,
  the time slept so far, the source of random numbers, and counts of what the program did
  to the host.
\<close>

datatype hostEvent = TriggerClick | SubmitClick | Timeout nat

type_synonym 'h host = "hostEvent \<Rightarrow> 'h \<times> document \<Rightarrow> 'h \<times> document"

record 'h world =
  hostState :: 'h
  page :: document
  clock :: nat
  triggerClicks :: nat
  submitClicks :: nat
  waitAttempts :: nat
  closeAttempts :: nat
  mathRandom :: random

definition react :: "'h host \<Rightarrow> hostEvent \<Rightarrow> 'h world \<Rightarrow> 'h world" where
  "react host ev w =
     (case host ev (hostState w, page w) of (h, d) \<Rightarrow> w\<lparr>hostState := h, page := d\<rparr>)"

definition sleep :: "'h host \<Rightarrow> nat \<Rightarrow> 'h world \<Rightarrow> 'h world" where
  "sleep host ms w = (react host (Timeout ms) w)\<lparr>clock := clock w + ms\<rparr>"

definition openDialog :: "'h host \<Rightarrow> 'h world \<Rightarrow> result \<times> 'h world" where
  "openDialog host w =
     (if \<not> trigger (page w)
      then (failure (ascii ''Dialog trigger element not found. Make sure you're on the correct page.''), w)
      else
        let w1 = react host TriggerClick (w\<lparr>triggerClicks := triggerClicks w + 1\<rparr>);
            w2 = sleep host 100 w1
        in (succeeded (ascii ''Dialog trigger clicked successfully''), w2))"

definition isDialogOpen :: "document \<Rightarrow> bool" where
  "isDialogOpen doc =
     (case dialog doc of
        None \<Rightarrow> False
      | Some dialog' \<Rightarrow>
          styleDisplay dialog' = ascii ''block'' \<or> computedDisplay dialog' \<noteq> ascii ''none'')"

text \<open>\<open>timeTable.querySelectorAll('input.checkIn, input.checkOut').length\<close>.\<close>

definition countTimeInputs :: "hoursReport \<Rightarrow> nat" where
  "countTimeInputs timeTable =
     length (filter (\<lambda>r. checkIn r \<noteq> None) (rows timeTable)) +
     length (filter (\<lambda>r. checkOut r \<noteq> None) (rows timeTable))"

text \<open>
  The checks of one attempt, in the order of the source: the first that fails names what
  is missing, and when all pass the number of time inputs is returned.
\<close>

datatype notReady =
    DialogNotVisible | AttendanceViewNotFound | AttendanceViewNotVisible
  | TimeTableNotFound | NoTimeInputs | SubmitButtonNotFound

definition readinessChecks :: "document \<Rightarrow> notReady + nat" where
  "readinessChecks doc =
     (if \<not> isDialogOpen doc then Inl DialogNotVisible
      else
        (case dialog doc of
           None \<Rightarrow> Inl DialogNotVisible
         | Some dialog' \<Rightarrow>
             (case attendanceView dialog' of
                None \<Rightarrow> Inl AttendanceViewNotFound
              | Some attendanceView' \<Rightarrow>
                  if \<not> (viewStyleDisplay attendanceView' \<noteq> ascii ''none'' \<and>
                        viewComputedDisplay attendanceView' \<noteq> ascii ''none'')
                  then Inl AttendanceViewNotVisible
                  else
                    (case find insideAttendanceView (hoursReports dialog') of
                       None \<Rightarrow> Inl TimeTableNotFound
                     | Some timeTable \<Rightarrow>
                         if countTimeInputs timeTable = 0 then Inl NoTimeInputs
                         else
                           (case submitButton dialog' of
                              None \<Rightarrow> Inl SubmitButtonNotFound
                            | Some b \<Rightarrow> Inr (countTimeInputs timeTable))))))"

text \<open>
  The loop of \<open>waitForDialog\<close> from \<open>attempt\<close> on. \<open>maxRetries\<close> and \<open>delayMs\<close> are the values
  read from the configuration. Every failed check pauses and continues; no query of the
  document raises, so the \<open>catch\<close> of the loop body, and the pause after it, are not
  reached.
\<close>

function waitForDialogFrom ::
  "'h host \<Rightarrow> int \<Rightarrow> nat \<Rightarrow> int \<Rightarrow> 'h world \<Rightarrow> result \<times> 'h world" where
  "waitForDialogFrom host maxRetries delayMs attempt w =
     (if attempt \<le> maxRetries
      then
        (case readinessChecks (page w) of
           Inl missing \<Rightarrow>
             waitForDialogFrom host maxRetries delayMs (attempt + 1)
               (sleep host delayMs (w\<lparr>waitAttempts := waitAttempts w + 1\<rparr>))
         | Inr timeInputs \<Rightarrow>
             (\<lparr>success = True,
               message = Some (ascii ''Dialog ready after '' @ String (Some attempt) @ ascii '' attempts''),
               error = None, warning = None,
               details = Some (DialogDetails timeInputs True)\<rparr>,
              w\<lparr>waitAttempts := waitAttempts w + 1\<rparr>))
      else
        (failure (ascii ''Dialog not ready after '' @ String (Some maxRetries) @ ascii '' attempts ('' @
                  String (Some (maxRetries * int delayMs)) @ ascii ''ms total wait time)''), w))"
  by pat_completeness auto
termination
  by (relation "measure (\<lambda>(host, maxRetries, delayMs, attempt, w). nat (maxRetries + 1 - attempt))") auto

declare waitForDialogFrom.simps [simp del]

definition waitForDialog :: "'h host \<Rightarrow> int \<Rightarrow> nat \<Rightarrow> 'h world \<Rightarrow> result \<times> 'h world" where
  "waitForDialog host maxRetries delayMs w = waitForDialogFrom host maxRetries delayMs 1 w"

section \<open>formManager.js: submission\<close>

function waitForDialogCloseFrom ::
  "'h host \<Rightarrow> int \<Rightarrow> nat \<Rightarrow> int \<Rightarrow> 'h world \<Rightarrow> result \<times> 'h world" where
  "waitForDialogCloseFrom host maxRetries delayMs attempt w =
     (if attempt \<le> maxRetries
      then
        (case dialog (page w) of
           None \<Rightarrow>
             (succeeded (ascii ''Dialog removed from DOM''), w\<lparr>closeAttempts := closeAttempts w + 1\<rparr>)
         | Some dialog' \<Rightarrow>
             if \<not> (styleDisplay dialog' = ascii ''block'' \<or> computedDisplay dialog' \<noteq> ascii ''none'')
             then (succeeded (ascii ''Dialog hidden successfully''),
                   w\<lparr>closeAttempts := closeAttempts w + 1\<rparr>)
             else
               waitForDialogCloseFrom host maxRetries delayMs (attempt + 1)
                 (if attempt < maxRetries
                  then sleep host delayMs (w\<lparr>closeAttempts := closeAttempts w + 1\<rparr>)
                  else w\<lparr>closeAttempts := closeAttempts w + 1\<rparr>))
      else
        (failure (ascii ''Dialog did not close after '' @ String (Some (maxRetries * int delayMs)) @
                  ascii ''ms''), w))"
  by pat_completeness auto
termination
  by (relation "measure (\<lambda>(host, maxRetries, delayMs, attempt, w). nat (maxRetries + 1 - attempt))") auto

declare waitForDialogCloseFrom.simps [simp del]

definition waitForDialogClose :: "'h host \<Rightarrow> int \<Rightarrow> nat \<Rightarrow> 'h world \<Rightarrow> result \<times> 'h world" where
  "waitForDialogClose host maxRetries delayMs w = waitForDialogCloseFrom host maxRetries delayMs 1 w"

text \<open>
  \<open>defaultRetries\<close> and \<open>defaultDelay\<close> are the values \<open>DEFAULT_RETRY_COUNT\<close> and
  \<open>DEFAULT_DELAY_MS\<close> of the configuration.
\<close>

definition submitForm :: "'h host \<Rightarrow> int \<Rightarrow> nat \<Rightarrow> 'h world \<Rightarrow> result \<times> 'h world" where
  "submitForm host defaultRetries defaultDelay w =
     (case dialog (page w) of
        None \<Rightarrow> (failure (ascii ''Dialog not found for submission''), w)
      | Some dialog' \<Rightarrow>
          (case submitButton dialog' of
             None \<Rightarrow>
               (failure (ascii ''Submit button not found. Button selector: .save.button-refresh-data.update-freeReporting''), w)
           | Some submitButton' \<Rightarrow>
               if disabled submitButton' then (failure (ascii ''Submit button is disabled''), w)
               else
                 let w1 = react host SubmitClick (w\<lparr>submitClicks := submitClicks w + 1\<rparr>);
                     w2 = sleep host 500 w1
                 in (case waitForDialogClose host defaultRetries defaultDelay w2 of
                       (closeSuccess, w3) \<Rightarrow>
                         if success closeSuccess
                         then (succeeded (ascii ''Form submitted successfully and dialog closed''), w3)
                         else
                           (\<lparr>success = True,
                             message = Some (ascii ''Submit button clicked, but dialog remained open (check for validation errors)''),
                             error = None,
                             warning = Some (ascii ''Dialog did not close automatically''),
                             details = None\<rparr>, w3))))"

section \<open>content.js\<close>

text \<open>
  The values the program reads from its configuration, and the orchestrator. The request
  is taken to carry its three fields \<open>startTime\<close>, \<open>endTime\<close> and \<open>humanize\<close>.
\<close>

record config =
  MISSING_EVENT_SKIP_RULES :: "jsstring \<rightharpoonup> jsstring"
  waitForDialogMaxRetries :: int
  waitForDialogDelayTime :: nat
  DEFAULT_RETRY_COUNT :: int
  DEFAULT_DELAY_MS :: nat

definition fillWorkingHours ::
  "'h host \<Rightarrow> config \<Rightarrow> jsstring \<Rightarrow> jsstring \<Rightarrow> bool \<Rightarrow> 'h world \<Rightarrow> result \<times> 'h world" where
  "fillWorkingHours host cfg startTime endTime humanize' w =
     (let dataProvider = \<lparr>checkinTime = startTime, checkoutTime = endTime, humanize = humanize'\<rparr>
      in case openDialog host w of (openResult, w1) \<Rightarrow>
        if \<not> success openResult then (openResult, w1)
        else
          (case waitForDialog host (waitForDialogMaxRetries cfg) (waitForDialogDelayTime cfg) w1 of
             (waitResult, w2) \<Rightarrow>
               if \<not> success waitResult then (waitResult, w2)
               else
                 (case fillTimeInputs (MISSING_EVENT_SKIP_RULES cfg) ConstantDataProvider_getTimeData
                         (dataProvider, mathRandom w2) (page w2) of
                    (fillResult, s', doc') \<Rightarrow>
                      let w3 = w2\<lparr>page := doc', mathRandom := snd s'\<rparr>
                      in if \<not> success fillResult then (fillResult, w3)
                         else
                           (case submitForm host (DEFAULT_RETRY_COUNT cfg) (DEFAULT_DELAY_MS cfg) w3 of
                              (submitResult, w4) \<Rightarrow>
                                if \<not> success submitResult then (submitResult, w4)
                                else
                                  (\<lparr>success = True,
                                    message = Some (ascii ''Successfully filled and submitted timesheet!''),
                                    error = None, warning = None,
                                    details = Some (SubmittedDetails
                                      (case details fillResult of
                                         Some (FillDetails d) \<Rightarrow> Some d | _ \<Rightarrow> None))\<rparr>,
                                   w4)))))"

section \<open>The single-file content script (legacy)\<close>

text \<open>
  The single-file content script holds all classes in one file. Its \<open>isInputFilled\<close>,
  \<open>isRowComplete\<close>, \<open>fillRowInputs\<close>, \<open>addRandomVariation\<close>, \<open>getTimeData\<close>,
  \<open>openDialog\<close> and \<open>isDialogOpen\<close> are, statement for statement, those of the modules
  above. Its \<open>parseDateRow\<close> does not read the absence select, its \<open>shouldSkipDate\<close> has
  no absence rule, and the loop of its \<open>fillTimeInputs\<close> counts a complete row in another
  way.
\<close>

definition parseDateRow_legacy :: "row \<Rightarrow> legacyDateInfo option" where
  "parseDateRow_legacy row =
     (case dateCell row of
        None \<Rightarrow> None
      | Some dateCell' \<Rightarrow>
          (case dateText dateCell' of
             None \<Rightarrow> None
           | Some textContent \<Rightarrow>
               let fullDateText = trim textContent in
               (case matchDate fullDateText of
                  None \<Rightarrow> None
                | Some (dateString, hebrewLetter) \<Rightarrow>
                    let specialText =
                          (case specialDayDescription dateCell' of
                             Some t \<Rightarrow> trim t | None \<Rightarrow> [])
                    in Some \<lparr>date = dateString, hebrewDay = hebrewLetter,
                             specialText = specialText, fullText = fullDateText,
                             skipReason = None\<rparr>)))"

definition shouldSkipDate_legacy :: "legacyDateInfo \<Rightarrow> bool \<times> legacyDateInfo" where
  "shouldSkipDate_legacy dateInfo =
     (if hebrewDay dateInfo = [1493] \<or> hebrewDay dateInfo = [1513]
      then (True, dateInfo\<lparr>skipReason := Some (ascii ''Weekend ('' @
              (if hebrewDay dateInfo = [1493] then ascii ''Friday'' else ascii ''Saturday'') @
              ascii '')'')\<rparr>)
      else if str_includes (specialText dateInfo) [1495, 1490] \<and>
              \<not> str_includes (specialText dateInfo) [1506, 1512, 1489]
      then (True, dateInfo\<lparr>skipReason := Some (ascii ''Holiday'')\<rparr>)
      else if str_includes (specialText dateInfo) [1506, 1512, 1489, 32, 1495, 1490]
      then (True, dateInfo\<lparr>skipReason := Some (ascii ''Holiday Eve'')\<rparr>)
      else (False, dateInfo))"

text \<open>
  The loop body of the legacy \<open>fillTimeInputs\<close>. For a complete row it executes
  \<open>alreadyFilledCount++\<close>; no variable of that name is declared, so the statement raises a
  \<open>ReferenceError\<close>, and the \<open>catch\<close> of the body increments \<open>errorCount\<close>.
\<close>

definition processRow_legacy ::
  "'s dataProvider \<Rightarrow> row \<Rightarrow> counters \<times> 's \<Rightarrow> (counters \<times> 's) \<times> row" where
  "processRow_legacy dataProvider row st =
     (case st of (c, s) \<Rightarrow>
       (case parseDateRow_legacy row of
          None \<Rightarrow> ((c\<lparr>skippedCount := skippedCount c + 1\<rparr>, s), row)
        | Some dateInfo \<Rightarrow>
            (case shouldSkipDate_legacy dateInfo of (skip, dateInfo) \<Rightarrow>
               if skip then ((c\<lparr>skippedCount := skippedCount c + 1\<rparr>, s), row)
               else if isRowComplete row then ((c\<lparr>errorCount := errorCount c + 1\<rparr>, s), row)
               else
                 (case dataProvider (date dateInfo) s of
                    (Raises, s') \<Rightarrow> ((c\<lparr>errorCount := errorCount c + 1\<rparr>, s'), row)
                  | (NoData, s') \<Rightarrow> ((c\<lparr>errorCount := errorCount c + 1\<rparr>, s'), row)
                  | (TimeData timeData, s') \<Rightarrow>
                      (case fillRowInputs row timeData (date dateInfo) of (fillResult, row') \<Rightarrow>
                         if success fillResult
                         then ((c\<lparr>filledCount := filledCount c + 1\<rparr>, s'), row')
                         else ((c\<lparr>errorCount := errorCount c + 1\<rparr>, s'), row'))))))"

fun forRows_legacy ::
  "'s dataProvider \<Rightarrow> row list \<Rightarrow> counters \<times> 's \<Rightarrow> (counters \<times> 's) \<times> row list" where
  "forRows_legacy dataProvider [] st = (st, [])"
| "forRows_legacy dataProvider (row # dateRows) st =
     (case processRow_legacy dataProvider row st of (st', row') \<Rightarrow>
        (case forRows_legacy dataProvider dateRows st' of (st'', dateRows') \<Rightarrow>
           (st'', row' # dateRows')))"

definition fillTimeInputs_legacy ::
  "'s dataProvider \<Rightarrow> 's \<Rightarrow> document \<Rightarrow> result \<times> 's \<times> document" where
  "fillTimeInputs_legacy dataProvider s doc =
     (case dialog doc of
        None \<Rightarrow> (failure (ascii ''Dialog not found''), s, doc)
      | Some dialog' \<Rightarrow>
          (case hoursReports dialog' of
             [] \<Rightarrow> (failure (ascii ''Time table not found in dialog''), s, doc)
           | timeTable # others \<Rightarrow>
               (case forRows_legacy dataProvider (dateRowsOf timeTable)
                       (\<lparr>filledCount = 0, skippedCount = 0, errorCount = 0\<rparr>, s) of
                  ((c, s'), dateRows') \<Rightarrow>
                    (\<lparr>success = True,
                      message = Some (ascii ''Successfully filled '' @ String (Some (filledCount c)) @
                                      ascii '' working days''),
                      error = None, warning = None,
                      details = Some (FillDetails \<lparr>filled = filledCount c,
                                  skipped = skippedCount c, errors = errorCount c\<rparr>)\<rparr>,
                     s',
                     doc\<lparr>dialog := Some (dialog'\<lparr>hoursReports :=
                            timeTable\<lparr>rows := putRows (rows timeTable) dateRows'\<rparr> # others\<rparr>)\<rparr>))))"

section \<open>Reading the classifier at its call site\<close>

text \<open>
  The loop of \<open>fillTimeInputs\<close> skips a row when \<open>shouldSkipDate\<close> returns true, with the
  reason the call stored in \<open>skipReason\<close>, and goes on to treat it as a working day
  otherwise.
\<close>

datatype classification = Skip "jsstring option" | Work

definition classify :: "(jsstring \<rightharpoonup> jsstring) \<Rightarrow> dateInfo \<Rightarrow> classification" where
  "classify skipRules dateInfo =
     (case shouldSkipDate skipRules dateInfo of
        (skip, dateInfo') \<Rightarrow> if skip then Skip (skipReason dateInfo') else Work)"

definition classify_legacy :: "legacyDateInfo \<Rightarrow> classification" where
  "classify_legacy dateInfo =
     (case shouldSkipDate_legacy dateInfo of
        (skip, dateInfo') \<Rightarrow> if skip then Skip (skipReason dateInfo') else Work)"

section \<open>Concrete inputs\<close>

text \<open>
  Rows of a sheet: the header, and a day row with the given date text and inputs. Monday
  25/08/2025 carries the letter bet (U+05D1), Friday 29/08/2025 the letter vav (U+05D5).
\<close>

definition headerRow :: row where
  "headerRow = \<lparr>firstChild = True, dateCell = None, missingCell = None, checkIn = None,
                checkOut = None, dispatched = []\<rparr>"

definition dayRow :: "jsstring \<Rightarrow> jsstring option \<Rightarrow> jsstring option \<Rightarrow> row" where
  "dayRow text ci co =
     \<lparr>firstChild = False,
      dateCell = Some \<lparr>dateText = Some text, specialDayDescription = None\<rparr>,
      missingCell = None, checkIn = ci, checkOut = co, dispatched = []\<rparr>"

definition monday :: jsstring where
  "monday = ascii ''25/08/2025 '' @ [1489]"

definition friday :: jsstring where
  "friday = ascii ''29/08/2025 '' @ [1493]"

definition sheetOf :: "row list \<Rightarrow> document" where
  "sheetOf trs =
     \<lparr>trigger = True,
      dialog = Some \<lparr>styleDisplay = ascii ''block'', computedDisplay = ascii ''block'',
                     attendanceView = Some \<lparr>viewStyleDisplay = [], viewComputedDisplay = ascii ''block''\<rparr>,
                     hoursReports = [\<lparr>insideAttendanceView = True, rows = trs\<rparr>],
                     submitButton = Some \<lparr>disabled = False\<rparr>\<rparr>\<rparr>"

definition nineToSix :: ConstantDataProvider where
  "nineToSix = \<lparr>checkinTime = ascii ''09:00'', checkoutTime = ascii ''18:00'', humanize = False\<rparr>"

text \<open>Friday 11/10/2024, annotated as a holiday eve.\<close>

definition fridayEve :: dateInfo where
  "fridayEve =
     \<lparr>date = ascii ''11/10/2024'', hebrewDay = [1493],
      specialText = [1506, 1512, 1489, 32, 1495, 1490],
      fullText = ascii ''11/10/2024 '' @ [1493], skipReason = None,
      missingEventValue = ascii ''0''\<rparr>"

text \<open>A page with the trigger control and no dialog container, and a host that never changes it.\<close>

definition pageWithoutDialog :: document where
  "pageWithoutDialog = \<lparr>trigger = True, dialog = None\<rparr>"

definition pageWithoutTrigger :: document where
  "pageWithoutTrigger = \<lparr>trigger = False, dialog = None\<rparr>"

text \<open>An open dialog whose submit control is disabled.\<close>

definition pageWithDisabledSubmit :: document where
  "pageWithDisabledSubmit =
     \<lparr>trigger = True,
      dialog = Some \<lparr>styleDisplay = ascii ''block'', computedDisplay = ascii ''block'',
                     attendanceView = None, hoursReports = [],
                     submitButton = Some \<lparr>disabled = True\<rparr>\<rparr>\<rparr>"

definition idleHost :: "unit host" where
  "idleHost ev st = st"

definition worldOf :: "document \<Rightarrow> unit world" where
  "worldOf doc =
     \<lparr>hostState = (), page = doc, clock = 0, triggerClicks = 0, submitClicks = 0,
      waitAttempts = 0, closeAttempts = 0, mathRandom = (\<lambda>n. 0)\<rparr>"

definition threeRetries :: config where
  "threeRetries =
     \<lparr>MISSING_EVENT_SKIP_RULES = Map.empty, waitForDialogMaxRetries = 3,
      waitForDialogDelayTime = 10, DEFAULT_RETRY_COUNT = 2, DEFAULT_DELAY_MS = 10\<rparr>"

section \<open>Digits, padding and splitting\<close>

lemma decimal_snoc: "decimal (ds @ [c]) = 10 * decimal ds + (c - 48)"
  by (simp add: decimal_def)

lemma decimal_Cons_zero: "decimal (48 # ds) = decimal ds"
proof (induction ds rule: rev_induct)
  case Nil
  show ?case by (simp add: decimal_def)
next
  case (snoc c ds)
  have "decimal (48 # ds @ [c]) = decimal ((48 # ds) @ [c])" by simp
  also have "\<dots> = 10 * decimal (48 # ds) + (c - 48)" by (rule decimal_snoc)
  finally show ?case using snoc by (simp add: decimal_snoc)
qed

lemma decimalDigits_props:
  "list_all isDigit (decimalDigits n) \<and> decimalDigits n \<noteq> [] \<and> decimal (decimalDigits n) = n"
proof (induction n rule: decimalDigits.induct)
  case (1 n)
  show ?case
  proof (cases "n < 10")
    case True
    then show ?thesis by (simp add: decimalDigits.simps [of n] isDigit_def decimal_def)
  next
    case False
    with 1 have ih: "list_all isDigit (decimalDigits (n div 10))"
      "decimal (decimalDigits (n div 10)) = n div 10" by simp_all
    have "n mod 10 < 10" by simp
    then have d: "isDigit (48 + n mod 10)" unfolding isDigit_def by linarith
    from False ih d show ?thesis
      by (simp add: decimalDigits.simps [of n] decimal_snoc)
  qed
qed

lemma isDigit_not_sep: "list_all isDigit ds \<Longrightarrow> 58 \<notin> set ds \<and> 45 \<notin> set ds"
  by (auto simp: list_all_iff isDigit_def)

lemma split_js_no_sep: "sep \<notin> set a \<Longrightarrow> split_js a sep = [a]"
  by (induction a) auto

lemma split_js_two: "sep \<notin> set a \<Longrightarrow> sep \<notin> set b \<Longrightarrow> split_js (a @ sep # b) sep = [a, b]"
  by (induction a) (auto simp: split_js_no_sep)

lemma Number_digits: "ds \<noteq> [] \<Longrightarrow> list_all isDigit ds \<Longrightarrow> Number ds = Some (int (decimal ds))"
  by (cases ds) (auto simp: Number_def isDigit_def)

lemma pad2_digits:
  "padStart (decimalDigits n) 2 (ascii ''0'') = decimalDigits n \<or>
   padStart (decimalDigits n) 2 (ascii ''0'') = 48 # decimalDigits n"
proof -
  have "decimalDigits n \<noteq> []" using decimalDigits_props by blast
  then obtain c cs where "decimalDigits n = c # cs" by (cases "decimalDigits n") auto
  then show ?thesis by (cases cs) (auto simp: padStart_def ascii_def)
qed

lemma Number_pad2: "Number (padStart (String (Some (int n))) 2 (ascii ''0'')) = Some (int n)"
proof -
  have s: "String (Some (int n)) = decimalDigits n" by (simp add: String_def)
  from pad2_digits [of n] show ?thesis
  proof
    assume "padStart (decimalDigits n) 2 (ascii ''0'') = decimalDigits n"
    then show ?thesis using decimalDigits_props [of n] by (simp add: s Number_digits)
  next
    assume a: "padStart (decimalDigits n) 2 (ascii ''0'') = 48 # decimalDigits n"
    have "list_all isDigit (48 # decimalDigits n)"
      using decimalDigits_props [of n] by (simp add: isDigit_def)
    then have "Number (48 # decimalDigits n) = Some (int (decimal (48 # decimalDigits n)))"
      by (intro Number_digits) simp_all
    then show ?thesis using decimalDigits_props [of n] by (simp add: s a decimal_Cons_zero)
  qed
qed

lemma pad2_all_digits: "list_all isDigit (padStart (String (Some (int n))) 2 (ascii ''0''))"
  using pad2_digits [of n] decimalDigits_props [of n] by (auto simp: String_def isDigit_def)

text \<open>Reading back a time that was written as hours, a colon and minutes.\<close>

lemma timeToMinutes_format:
  "timeToMinutes (padStart (String (Some (int h))) 2 (ascii ''0'') @ ascii '':'' @
                  padStart (String (Some (int m))) 2 (ascii ''0'')) = Some (int h * 60 + int m)"
proof -
  let ?a = "padStart (String (Some (int h))) 2 (ascii ''0'')"
  let ?b = "padStart (String (Some (int m))) 2 (ascii ''0'')"
  have "58 \<notin> set ?a" "58 \<notin> set ?b"
    using pad2_all_digits isDigit_not_sep by blast+
  then have "split_js (?a @ 58 # ?b) 58 = [?a, ?b]" by (rule split_js_two)
  then show ?thesis
    by (simp add: timeToMinutes_def ascii_def [of "'':''"] element_def Number_pad2 num_add_def num_mul_def)
qed

lemma valid_time_minutes:
  "isValidTimeFormat s \<Longrightarrow> \<exists>T. timeToMinutes s = Some T \<and> 0 \<le> T \<and> T \<le> 1439"
  by (erule isValidTimeFormat.elims)
     (auto simp: timeToMinutes_def Number_def isDigit_def decimal_def element_def num_add_def num_mul_def)

lemma floor_offset_range:
  assumes "0 \<le> rnd" "rnd < 1"
  shows "- 20 \<le> \<lfloor>rnd * 41\<rfloor> - 20 \<and> \<lfloor>rnd * 41\<rfloor> - 20 \<le> (20::int)"
proof -
  from assms have "0 \<le> rnd * 41" "rnd * 41 < 41" by simp_all
  then have "0 \<le> \<lfloor>rnd * 41\<rfloor>" "\<lfloor>rnd * 41\<rfloor> < 41" by (simp_all add: floor_less_iff)
  then show ?thesis by simp
qed

lemma pad2_lt100:
  assumes "n < 100"
  shows "padStart (String (Some (int n))) 2 (ascii ''0'') = [48 + n div 10, 48 + n mod 10]"
proof (cases "n < 10")
  case True
  then show ?thesis by (simp add: String_def decimalDigits.simps [of n] padStart_def ascii_def)
next
  case False
  with assms have "n div 10 < 10" by simp
  with False show ?thesis
    by (simp add: String_def decimalDigits.simps [of n] decimalDigits.simps [of "n div 10"] padStart_def)
qed

lemma format_valid:
  assumes "h < 24" "m < 60"
  shows "isValidTimeFormat (padStart (String (Some (int h))) 2 (ascii ''0'') @ ascii '':'' @
           padStart (String (Some (int m))) 2 (ascii ''0''))"
    and "length (padStart (String (Some (int h))) 2 (ascii ''0'') @ ascii '':'' @
           padStart (String (Some (int m))) 2 (ascii ''0'')) = 5"
proof -
  from assms have h: "h div 10 = 0 \<or> h div 10 = 1 \<or> h div 10 = 2 \<and> h mod 10 \<le> 3" by presburger
  from assms have m: "m div 10 \<le> 5" by presburger
  have d: "h mod 10 \<le> 9" "m mod 10 \<le> 9" by presburger+
  from assms have p: "padStart (String (Some (int h))) 2 (ascii ''0'') = [48 + h div 10, 48 + h mod 10]"
    "padStart (String (Some (int m))) 2 (ascii ''0'') = [48 + m div 10, 48 + m mod 10]"
    by (simp_all add: pad2_lt100)
  show "isValidTimeFormat (padStart (String (Some (int h))) 2 (ascii ''0'') @ ascii '':'' @
           padStart (String (Some (int m))) 2 (ascii ''0''))"
    using h m d unfolding p by (auto simp: ascii_def isDigit_def)
  show "length (padStart (String (Some (int h))) 2 (ascii ''0'') @ ascii '':'' @
           padStart (String (Some (int m))) 2 (ascii ''0'')) = 5"
    unfolding p by (simp add: ascii_def)
qed

lemma split_minutes:
  assumes "0 \<le> (c::int)"
  shows "\<exists>h m. c div 60 = int h \<and> c mod 60 = int m \<and> int h * 60 + int m = c \<and> m < 60 \<and>
           (c \<le> 1439 \<longrightarrow> h < 24)"
proof -
  from assms have "0 \<le> c div 60" "0 \<le> c mod 60" by (simp_all add: pos_imp_zdiv_nonneg_iff)
  then obtain h m where hm: "c div 60 = int h" "c mod 60 = int m"
    using nonneg_int_cases by metis
  have "c mod 60 < 60" by simp
  with hm have "m < 60" by linarith
  moreover have "int h * 60 + int m = c" using hm by (metis mult.commute mult_div_mod_eq)
  moreover have "c \<le> 1439 \<longrightarrow> h < 24" using hm(1) by linarith
  ultimately show ?thesis using hm by blast
qed

lemmas eval_js = ascii_def isDigit_def isWhiteSpace_def isHebrewLetter_def trim_def
  Number_def decimal_def element_def num_add_def num_mul_def floor_div_def remainder_def
  String_def padStart_def decimalDigits.simps Math_max_def Math_min_def timeToMinutes_def

section \<open>The humanized times\<close>

lemma addRandomVariation_unfold:
  assumes "timeToMinutes base = Some T"
  shows "addRandomVariation base rnd =
     (let c = max 0 (min 1439 (T + (\<lfloor>rnd * 41\<rfloor> - 20)))
      in padStart (String (Some (c div 60))) 2 (ascii ''0'') @ ascii '':'' @
         padStart (String (Some (c mod 60))) 2 (ascii ''0''))"
proof -
  have c: "0 \<le> max 0 (min 1439 (T + (\<lfloor>rnd * 41\<rfloor> - 20)))" by simp
  from assms show ?thesis
    unfolding addRandomVariation_def timeToMinutes_def Let_def
    using c by (simp add: num_add_def Math_max_def Math_min_def floor_div_def remainder_def)
qed

lemma addRandomVariation_jittered:
  assumes "isValidTimeFormat base" "0 \<le> rnd" "rnd < 1"
  shows "jittered base (addRandomVariation base rnd)"
proof -
  from valid_time_minutes [OF assms(1)] obtain T where T: "timeToMinutes base = Some T" by blast
  define off where "off = \<lfloor>rnd * 41\<rfloor> - 20"
  define c where "c = max 0 (min 1439 (T + off))"
  have c: "0 \<le> c" "c \<le> 1439" by (simp_all add: c_def)
  from split_minutes [OF c(1)] c(2) obtain h m where
    hm: "c div 60 = int h" "c mod 60 = int m" "int h * 60 + int m = c" "m < 60" "h < 24"
    by blast
  have out: "addRandomVariation base rnd =
      padStart (String (Some (int h))) 2 (ascii ''0'') @ ascii '':'' @
      padStart (String (Some (int m))) 2 (ascii ''0'')"
    unfolding addRandomVariation_unfold [OF T] Let_def off_def [symmetric] c_def [symmetric]
    by (simp only: hm(1,2))
  have "timeToMinutes (addRandomVariation base rnd) = Some c"
    unfolding out using hm(3) by (simp add: timeToMinutes_format)
  moreover have "isValidTimeFormat (addRandomVariation base rnd)" "length (addRandomVariation base rnd) = 5"
    unfolding out using format_valid [OF hm(5,4)] by simp_all
  moreover have "- 20 \<le> off \<and> off \<le> 20" unfolding off_def using assms(2,3) by (rule floor_offset_range)
  ultimately show ?thesis unfolding jittered_def using T c_def by blast
qed

lemma getTimeDataCalls_jittered:
  assumes "humanize p" "isValidTimeFormat (checkinTime p)" "isValidTimeFormat (checkoutTime p)"
    and "\<forall>n. 0 \<le> rnd n \<and> rnd n < 1"
  shows "\<forall>td \<in> set (getTimeDataCalls p dates rnd).
           jittered (checkinTime p) (checkin td) \<and> jittered (checkoutTime p) (checkout td)"
  using assms(4)
proof (induction dates arbitrary: rnd)
  case Nil
  show ?case by simp
next
  case (Cons d dates)
  have rest: "\<forall>n. 0 \<le> rnd (n + 2) \<and> rnd (n + 2) < 1" using Cons.prems by simp
  have here: "jittered (checkinTime p) (addRandomVariation (checkinTime p) (rnd 0))"
    "jittered (checkoutTime p) (addRandomVariation (checkoutTime p) (rnd 1))"
    using assms(2,3) Cons.prems by (simp_all add: addRandomVariation_jittered)
  from Cons.IH [OF rest] here assms(1) show ?case
    by (simp add: getTimeData_def Let_def)
qed

lemma getTimeDataCalls_length: "length (getTimeDataCalls p dates rnd) = length dates"
  by (induction dates arbitrary: p rnd) (auto split: prod.splits)

lemma offset_draw:
  assumes "- 20 \<le> off" "off \<le> (20::int)"
  shows "0 \<le> (real_of_int (off + 20)) / 41 \<and> (real_of_int (off + 20)) / 41 < 1 \<and>
         \<lfloor>(real_of_int (off + 20)) / 41 * 41\<rfloor> - 20 = off"
proof -
  have "real_of_int (off + 20) / 41 * 41 = real_of_int (off + 20)" by simp
  then have "\<lfloor>(real_of_int (off + 20)) / 41 * 41\<rfloor> = off + 20" by (simp only: floor_of_int)
  moreover have "0 \<le> (real_of_int (off + 20)) / 41 \<and> (real_of_int (off + 20)) / 41 < 1"
    using assms by simp
  ultimately show ?thesis by simp
qed

lemma timeToMinutes_addRandomVariation:
  assumes "timeToMinutes base = Some T"
  shows "timeToMinutes (addRandomVariation base rnd) = Some (max 0 (min 1439 (T + (\<lfloor>rnd * 41\<rfloor> - 20))))"
proof -
  define c where "c = max 0 (min 1439 (T + (\<lfloor>rnd * 41\<rfloor> - 20)))"
  have c: "0 \<le> c" by (simp add: c_def)
  from split_minutes [OF c] obtain h m where
    hm: "c div 60 = int h" "c mod 60 = int m" "int h * 60 + int m = c" by blast
  have "addRandomVariation base rnd =
      padStart (String (Some (int h))) 2 (ascii ''0'') @ ascii '':'' @
      padStart (String (Some (int m))) 2 (ascii ''0'')"
    unfolding addRandomVariation_unfold [OF assms] Let_def c_def [symmetric]
    by (simp only: hm(1,2))
  then show ?thesis using hm(3) by (simp add: timeToMinutes_format c_def)
qed

text \<open>Each pair of offsets is drawn by some pair of random numbers: the two draws are separate.\<close>

lemma getTimeData_independent:
  assumes "humanize p"
    and "timeToMinutes (checkinTime p) = Some T1" "timeToMinutes (checkoutTime p) = Some T2"
    and "- 20 \<le> o1" "o1 \<le> 20" "- 20 \<le> o2" "o2 \<le> 20"
  shows "\<exists>rnd. (\<forall>n. 0 \<le> rnd n \<and> rnd n < 1) \<and>
           timeToMinutes (checkin (fst (getTimeData p d rnd))) = Some (max 0 (min 1439 (T1 + o1))) \<and>
           timeToMinutes (checkout (fst (getTimeData p d rnd))) = Some (max 0 (min 1439 (T2 + o2)))"
proof -
  define rnd :: random where
    "rnd = (\<lambda>n. if n = 0 then real_of_int (o1 + 20) / 41 else real_of_int (o2 + 20) / 41)"
  have r: "\<forall>n. 0 \<le> rnd n \<and> rnd n < 1"
    using offset_draw [OF assms(4,5)] offset_draw [OF assms(6,7)] by (simp add: rnd_def)
  have f: "\<lfloor>rnd 0 * 41\<rfloor> - 20 = o1" "\<lfloor>rnd 1 * 41\<rfloor> - 20 = o2"
    using offset_draw [OF assms(4,5)] offset_draw [OF assms(6,7)] by (simp_all add: rnd_def)
  have "timeToMinutes (checkin (fst (getTimeData p d rnd))) = Some (max 0 (min 1439 (T1 + o1)))"
    using assms(1) timeToMinutes_addRandomVariation [OF assms(2), of "rnd 0"] f(1)
    by (simp add: getTimeData_def Let_def)
  moreover have "timeToMinutes (checkout (fst (getTimeData p d rnd))) = Some (max 0 (min 1439 (T2 + o2)))"
    using assms(1) timeToMinutes_addRandomVariation [OF assms(3), of "rnd 1"] f(2)
    by (simp add: getTimeData_def Let_def)
  ultimately show ?thesis using r by blast
qed








text \<open>
  Claim C5. With \<open>humanize\<close> set and valid configured times, every checkin and checkout
  that \<open>ConstantDataProvider.getTimeData\<close> returns, on any call of a run of calls, is the
  configured base time plus an integer offset between -20 and +20 minutes, clamped into
  00:00 to 23:59 and written as a zero-padded time of day. A call leaves the provider
  object as it was, so every call starts from the configured times and offsets do not
  compound. The two endpoints use separate draws: every pair of offsets is produced by
  some pair of random numbers.
\<close>

theorem getTimeData_jitter_bounds:
  assumes "humanize p" "isValidTimeFormat (checkinTime p)" "isValidTimeFormat (checkoutTime p)"
    and "\<forall>n. 0 \<le> rnd n \<and> rnd n < 1"
  shows "(\<forall>td \<in> set (getTimeDataCalls p dates rnd).
            jittered (checkinTime p) (checkin td) \<and> jittered (checkoutTime p) (checkout td)) \<and>
         length (getTimeDataCalls p dates rnd) = length dates \<and>
         fst (snd (getTimeData p d rnd)) = p \<and>
         checkin (fst (getTimeData p d rnd)) = addRandomVariation (checkinTime p) (rnd 0) \<and>
         checkout (fst (getTimeData p d rnd)) = addRandomVariation (checkoutTime p) (rnd 1) \<and>
         (\<forall>T1 T2 o1 o2.
            timeToMinutes (checkinTime p) = Some T1 \<and> timeToMinutes (checkoutTime p) = Some T2 \<and>
            - 20 \<le> o1 \<and> o1 \<le> 20 \<and> - 20 \<le> o2 \<and> o2 \<le> 20 \<longrightarrow>
            (\<exists>rnd'. (\<forall>n. 0 \<le> rnd' n \<and> rnd' n < 1) \<and>
               timeToMinutes (checkin (fst (getTimeData p d rnd'))) =
                 Some (max 0 (min 1439 (T1 + o1))) \<and>
               timeToMinutes (checkout (fst (getTimeData p d rnd'))) =
                 Some (max 0 (min 1439 (T2 + o2)))))"
proof (intro conjI allI impI)
  show "\<forall>td \<in> set (getTimeDataCalls p dates rnd).
          jittered (checkinTime p) (checkin td) \<and> jittered (checkoutTime p) (checkout td)"
    using assms by (rule getTimeDataCalls_jittered)
  show "length (getTimeDataCalls p dates rnd) = length dates" by (rule getTimeDataCalls_length)
  show "fst (snd (getTimeData p d rnd)) = p" by (simp add: getTimeData_def Let_def)
  show "checkin (fst (getTimeData p d rnd)) = addRandomVariation (checkinTime p) (rnd 0)"
    using assms(1) by (simp add: getTimeData_def Let_def)
  show "checkout (fst (getTimeData p d rnd)) = addRandomVariation (checkoutTime p) (rnd 1)"
    using assms(1) by (simp add: getTimeData_def Let_def)
next
  fix T1 T2 o1 o2 :: int
  assume "timeToMinutes (checkinTime p) = Some T1 \<and> timeToMinutes (checkoutTime p) = Some T2 \<and>
          - 20 \<le> o1 \<and> o1 \<le> 20 \<and> - 20 \<le> o2 \<and> o2 \<le> 20"
  then show "\<exists>rnd'. (\<forall>n. 0 \<le> rnd' n \<and> rnd' n < 1) \<and>
               timeToMinutes (checkin (fst (getTimeData p d rnd'))) =
                 Some (max 0 (min 1439 (T1 + o1))) \<and>
               timeToMinutes (checkout (fst (getTimeData p d rnd'))) =
                 Some (max 0 (min 1439 (T2 + o2)))"
    using getTimeData_independent [OF assms(1), of T1 T2 o1 o2 d] by blast
qed

theorem getTimeData_jitter_bounds_witness:
  "humanize (nineToSix\<lparr>humanize := True\<rparr>) \<and>
   isValidTimeFormat (checkinTime (nineToSix\<lparr>humanize := True\<rparr>)) \<and>
   isValidTimeFormat (checkoutTime (nineToSix\<lparr>humanize := True\<rparr>)) \<and>
   getTimeDataCalls (nineToSix\<lparr>humanize := True\<rparr>) [ascii ''25/08/2025'']
       (\<lambda>n. if n = 0 then 0 else 40 / 41) =
     [\<lparr>checkin = ascii ''08:40'', checkout = ascii ''18:20''\<rparr>] \<and>
   jittered (ascii ''09:00'') (ascii ''08:40'') \<and>
   jittered (ascii ''18:00'') (ascii ''18:20'')"
proof -
  let ?p = "nineToSix\<lparr>humanize := True\<rparr>"
  let ?rnd = "\<lambda>n::nat. if n = 0 then 0 else 40 / (41::real)"
  have h: "humanize ?p" "isValidTimeFormat (checkinTime ?p)" "isValidTimeFormat (checkoutTime ?p)"
    by (simp_all add: nineToSix_def ascii_def isDigit_def)
  have r: "\<forall>n. 0 \<le> ?rnd n \<and> ?rnd n < 1" by simp
  have c: "getTimeDataCalls ?p [ascii ''25/08/2025''] ?rnd =
      [\<lparr>checkin = ascii ''08:40'', checkout = ascii ''18:20''\<rparr>]"
    by (simp add: getTimeData_def addRandomVariation_def nineToSix_def Let_def eval_js)
  from getTimeData_jitter_bounds [OF h r, of "[ascii ''25/08/2025'']"]
  have "\<forall>td \<in> set (getTimeDataCalls ?p [ascii ''25/08/2025''] ?rnd).
          jittered (checkinTime ?p) (checkin td) \<and> jittered (checkoutTime ?p) (checkout td)"
    by blast
  then have "jittered (ascii ''09:00'') (ascii ''08:40'') \<and> jittered (ascii ''18:00'') (ascii ''18:20'')"
    unfolding c by (simp add: nineToSix_def)
  with h c show ?thesis by blast
qed


section \<open>Filling the rows\<close>

text \<open>
  Claim C2. \<open>fillRowInputs\<close> never alters a field that already holds a value: whatever the
  data source returned, a checkin (resp. checkout) input that is filled before the call,
  that is, whose trimmed value is not the empty string, holds the same value after it.
  The events the call dispatches show which fields it assigned: a field is assigned only
  if it is present with a trimmed value that is the empty string, and then it holds the
  value of the data source; a field that is not assigned keeps its value.
\<close>

theorem fillRowInputs_non_destructive:
  "(isInputFilled (checkIn row) \<longrightarrow> checkIn (snd (fillRowInputs row timeData d)) = checkIn row) \<and>
   (isInputFilled (checkOut row) \<longrightarrow> checkOut (snd (fillRowInputs row timeData d)) = checkOut row) \<and>
   (\<exists>evs. dispatched (snd (fillRowInputs row timeData d)) = dispatched row @ evs \<and>
      set evs \<subseteq> {InputEvent CheckIn, ChangeEvent CheckIn, InputEvent CheckOut, ChangeEvent CheckOut} \<and>
      (InputEvent CheckIn \<in> set evs \<longrightarrow>
         (\<exists>v. checkIn row = Some v \<and> trim v = []) \<and>
         checkIn (snd (fillRowInputs row timeData d)) = Some (checkin timeData)) \<and>
      (InputEvent CheckIn \<notin> set evs \<longrightarrow>
         checkIn (snd (fillRowInputs row timeData d)) = checkIn row) \<and>
      (InputEvent CheckOut \<in> set evs \<longrightarrow>
         (\<exists>v. checkOut row = Some v \<and> trim v = []) \<and>
         checkOut (snd (fillRowInputs row timeData d)) = Some (checkout timeData)) \<and>
      (InputEvent CheckOut \<notin> set evs \<longrightarrow>
         checkOut (snd (fillRowInputs row timeData d)) = checkOut row))"
  by (cases "checkIn row"; cases "checkOut row")
     (auto simp: fillRowInputs_def isInputFilled_def Let_def)

theorem fillRowInputs_non_destructive_witness:
  "isInputFilled (checkIn (dayRow monday (Some (ascii ''08:15'')) (Some []))) \<and>
   checkIn (snd (fillRowInputs (dayRow monday (Some (ascii ''08:15'')) (Some []))
       \<lparr>checkin = ascii ''09:00'', checkout = ascii ''18:00''\<rparr> (ascii ''25/08/2025''))) =
     Some (ascii ''08:15'') \<and>
   checkOut (snd (fillRowInputs (dayRow monday (Some (ascii ''08:15'')) (Some []))
       \<lparr>checkin = ascii ''09:00'', checkout = ascii ''18:00''\<rparr> (ascii ''25/08/2025''))) =
     Some (ascii ''18:00'')"
proof -
  let ?row = "dayRow monday (Some (ascii ''08:15'')) (Some [])"
  let ?td = "\<lparr>checkin = ascii ''09:00'', checkout = ascii ''18:00''\<rparr>"
  have f: "isInputFilled (checkIn ?row)"
    by (simp add: dayRow_def isInputFilled_def eval_js)
  with fillRowInputs_non_destructive [of ?row ?td "ascii ''25/08/2025''"]
  have "checkIn (snd (fillRowInputs ?row ?td (ascii ''25/08/2025''))) = checkIn ?row" by blast
  then have a: "checkIn (snd (fillRowInputs ?row ?td (ascii ''25/08/2025''))) = Some (ascii ''08:15'')"
    by (simp add: dayRow_def)
  have b: "checkOut (snd (fillRowInputs ?row ?td (ascii ''25/08/2025''))) = Some (ascii ''18:00'')"
    by (simp add: fillRowInputs_def dayRow_def isInputFilled_def Let_def eval_js)
  from f a b show ?thesis by blast
qed

section \<open>Classifying a row\<close>

lemma eve_includes:
  assumes "str_includes t [1506, 1512, 1489, 32, 1495, 1490]"
  shows "str_includes t [1506, 1512, 1489]" and "str_includes t [1495, 1490]"
proof -
  have a: "sublist [1506, 1512, 1489] [1506, 1512, 1489, 32, 1495, 1490::nat]"
    by (simp add: sublist_code)
  have b: "sublist [1495, 1490] [1506, 1512, 1489, 32, 1495, 1490::nat]"
    by (simp add: sublist_code)
  from assms a show "str_includes t [1506, 1512, 1489]"
    unfolding str_includes_def by (rule sublist_order.order_trans [rotated])
  from assms b show "str_includes t [1495, 1490]"
    unfolding str_includes_def by (rule sublist_order.order_trans [rotated])
qed

text \<open>
  Claim C3, as stated, fails on a weekend row: the special-day text of Friday 11/10/2024
  contains both the holiday token and the holiday-eve token, and the row is classified
  Weekend, not Holiday Eve.
\<close>

theorem holiday_eve_on_friday_is_weekend:
  "str_includes (specialText fridayEve) [1495, 1490] \<and>
   str_includes (specialText fridayEve) [1506, 1512, 1489, 32, 1495, 1490] \<and>
   classify Map.empty fridayEve = Skip (Some (ascii ''Weekend (Friday)'')) \<and>
   classify Map.empty fridayEve \<noteq> Skip (Some (ascii ''Holiday Eve''))"
  by (simp add: fridayEve_def classify_def shouldSkipDate_def str_includes_def sublist_code ascii_def)

text \<open>
  Claim C3, amended. Classification (\<open>shouldSkipDate\<close> and the Work default) is a total
  function with one outcome per row, and the rules are tried in a fixed order, the first
  match winning: Weekend for the letters vav and shin; else Holiday when the special-day
  text contains the holiday token and not the word for eve; else Holiday Eve when it
  contains the holiday-eve token; else the configured absence reason of the row's
  absence code, when there is one that is not empty; else Work. A row whose special-day
  text contains both the holiday token and the holiday-eve token is never classified
  Holiday, and is classified Holiday Eve unless its weekday letter is a weekend letter,
  in which case the earlier Weekend rule wins. The legacy classifier is the same with no
  absence rule; the call assigns nothing but \<open>skipReason\<close>.
\<close>

theorem shouldSkipDate_priority:
  "(hebrewDay di = [1493] \<longrightarrow> classify skipRules di = Skip (Some (ascii ''Weekend (Friday)''))) \<and>
   (hebrewDay di = [1513] \<longrightarrow> classify skipRules di = Skip (Some (ascii ''Weekend (Saturday)''))) \<and>
   (hebrewDay di \<noteq> [1493] \<and> hebrewDay di \<noteq> [1513] \<longrightarrow>
      (str_includes (specialText di) [1495, 1490] \<and> \<not> str_includes (specialText di) [1506, 1512, 1489] \<longrightarrow>
         classify skipRules di = Skip (Some (ascii ''Holiday''))) \<and>
      (\<not> (str_includes (specialText di) [1495, 1490] \<and> \<not> str_includes (specialText di) [1506, 1512, 1489]) \<longrightarrow>
         (str_includes (specialText di) [1506, 1512, 1489, 32, 1495, 1490] \<longrightarrow>
            classify skipRules di = Skip (Some (ascii ''Holiday Eve''))) \<and>
         (\<not> str_includes (specialText di) [1506, 1512, 1489, 32, 1495, 1490] \<longrightarrow>
            (\<forall>reason. skipRules (missingEventValue di) = Some reason \<and> reason \<noteq> [] \<longrightarrow>
               classify skipRules di = Skip (Some reason)) \<and>
            (skipRules (missingEventValue di) = None \<or> skipRules (missingEventValue di) = Some [] \<longrightarrow>
               classify skipRules di = Work)))) \<and>
   (str_includes (specialText di) [1495, 1490] \<and>
    str_includes (specialText di) [1506, 1512, 1489, 32, 1495, 1490] \<longrightarrow>
      classify skipRules di \<noteq> Skip (Some (ascii ''Holiday'')) \<and>
      (hebrewDay di \<noteq> [1493] \<and> hebrewDay di \<noteq> [1513] \<longrightarrow>
         classify skipRules di = Skip (Some (ascii ''Holiday Eve'')))) \<and>
   classify_legacy (legacyDateInfo.truncate di) = classify Map.empty di \<and>
   snd (shouldSkipDate skipRules di) = di\<lparr>skipReason := skipReason (snd (shouldSkipDate skipRules di))\<rparr>"
  using eve_includes [of "specialText di"]
  by (auto simp: classify_def classify_legacy_def shouldSkipDate_def shouldSkipDate_legacy_def
      legacyDateInfo.truncate_def ascii_def split: option.splits)

theorem shouldSkipDate_priority_witness:
  "str_includes (specialText (fridayEve\<lparr>hebrewDay := [1489]\<rparr>)) [1495, 1490] \<and>
   str_includes (specialText (fridayEve\<lparr>hebrewDay := [1489]\<rparr>)) [1506, 1512, 1489, 32, 1495, 1490] \<and>
   hebrewDay (fridayEve\<lparr>hebrewDay := [1489]\<rparr>) \<noteq> [1493] \<and>
   hebrewDay (fridayEve\<lparr>hebrewDay := [1489]\<rparr>) \<noteq> [1513] \<and>
   classify Map.empty (fridayEve\<lparr>hebrewDay := [1489]\<rparr>) = Skip (Some (ascii ''Holiday Eve'')) \<and>
   classify Map.empty (fridayEve\<lparr>hebrewDay := [1489]\<rparr>) \<noteq> Skip (Some (ascii ''Holiday''))"
proof -
  let ?di = "fridayEve\<lparr>hebrewDay := [1489]\<rparr>"
  have h: "str_includes (specialText ?di) [1495, 1490]"
    "str_includes (specialText ?di) [1506, 1512, 1489, 32, 1495, 1490]"
    "hebrewDay ?di \<noteq> [1493]" "hebrewDay ?di \<noteq> [1513]"
    by (simp_all add: fridayEve_def str_includes_def sublist_code)
  with shouldSkipDate_priority [of ?di Map.empty]
  have "classify Map.empty ?di = Skip (Some (ascii ''Holiday Eve''))"
    "classify Map.empty ?di \<noteq> Skip (Some (ascii ''Holiday''))"
    by blast+
  with h show ?thesis by blast
qed

section \<open>The fill pass\<close>

lemma processRow_one_counter:
  assumes "processRow skipRules dp row (c, s) = ((c', s'), row')"
  shows "c' = c\<lparr>filledCount := filledCount c + 1\<rparr> \<or>
         c' = c\<lparr>skippedCount := skippedCount c + 1\<rparr> \<or>
         c' = c\<lparr>errorCount := errorCount c + 1\<rparr>"
  using assms
  by (auto simp: processRow_def split: option.splits prod.splits if_splits providerResult.splits)

lemma forRows_counters:
  assumes "forRows skipRules dp dateRows (c, s) = ((c', s'), dateRows')"
  shows "filledCount c' + skippedCount c' + errorCount c' =
           filledCount c + skippedCount c + errorCount c + int (length dateRows) \<and>
         filledCount c \<le> filledCount c' \<and> skippedCount c \<le> skippedCount c' \<and>
         errorCount c \<le> errorCount c' \<and> length dateRows' = length dateRows"
  using assms
proof (induction dateRows arbitrary: c s c' s' dateRows')
  case Nil
  then show ?case by simp
next
  case (Cons row dateRows)
  obtain c1 s1 row1 where p: "processRow skipRules dp row (c, s) = ((c1, s1), row1)"
    by (metis surj_pair)
  obtain c2 s2 rows2 where f: "forRows skipRules dp dateRows (c1, s1) = ((c2, s2), rows2)"
    by (metis surj_pair)
  from Cons.prems p f have e: "c' = c2" "dateRows' = row1 # rows2" by simp_all
  from processRow_one_counter [OF p] Cons.IH [OF f] show ?case
    unfolding e by auto
qed


lemma fillTimeInputs_details:
  assumes "dialog doc = Some d" "hoursReports d = timeTable # others"
  shows "\<exists>fd. success (fst (fillTimeInputs skipRules dp s doc)) \<and>
           details (fst (fillTimeInputs skipRules dp s doc)) = Some (FillDetails fd) \<and>
           filled fd + skipped fd + errors fd = int (length (dateRowsOf timeTable)) \<and>
           0 \<le> filled fd \<and> 0 \<le> skipped fd \<and> 0 \<le> errors fd"
proof -
  obtain c' s' rows' where f: "forRows skipRules dp (dateRowsOf timeTable)
      (\<lparr>filledCount = 0, skippedCount = 0, errorCount = 0\<rparr>, s) = ((c', s'), rows')"
    by (metis surj_pair)
  from forRows_counters [OF f] assms f show ?thesis
    by (simp add: fillTimeInputs_def)
qed



text \<open>
  Claim C9. In the modular \<open>fillTimeInputs\<close> every iterated date row increments exactly
  one of the three counters. So whenever the call succeeds its result carries a details
  object with all three counts, none of them negative, and they add up to the number of
  date rows of the table.
\<close>

theorem fillTimeInputs_counter_partition:
  "success (fst (fillTimeInputs skipRules dp s doc)) \<longrightarrow>
     (\<exists>d timeTable others fd. dialog doc = Some d \<and> hoursReports d = timeTable # others \<and>
        details (fst (fillTimeInputs skipRules dp s doc)) = Some (FillDetails fd) \<and>
        filled fd + skipped fd + errors fd = int (length (dateRowsOf timeTable)) \<and>
        0 \<le> filled fd \<and> 0 \<le> skipped fd \<and> 0 \<le> errors fd)"
proof (cases "dialog doc")
  case None
  then show ?thesis by (simp add: fillTimeInputs_def failure_def)
next
  case (Some d)
  show ?thesis
  proof (cases "hoursReports d")
    case Nil
    with Some show ?thesis by (simp add: fillTimeInputs_def failure_def)
  next
    case (Cons timeTable others)
    from fillTimeInputs_details [OF Some Cons, of skipRules dp s] Some Cons show ?thesis by blast
  qed
qed

text \<open>
  A sheet with three date rows: a Friday, a Monday with two empty inputs, and a Monday
  that lacks its checkout input.
\<close>

lemma matchDate_monday: "matchDate (trim monday) = Some (ascii ''25/08/2025'', [1489])"
  by (simp add: monday_def eval_js)

lemma matchDate_friday: "matchDate (trim friday) = Some (ascii ''29/08/2025'', [1493])"
  by (simp add: friday_def eval_js)

lemmas eval_fill = fillTimeInputs_def sheetOf_def dateRowsOf_def headerRow_def dayRow_def
  processRow_def parseDateRow_def matchDate_monday matchDate_friday shouldSkipDate_def
  isRowComplete_def isInputFilled_def fillRowInputs_def failure_def Let_def
  str_includes_def sublist_code ConstantDataProvider_getTimeData_def getTimeData_def
  nineToSix_def

lemma fill_three_rows:
  "fst (fillTimeInputs Map.empty ConstantDataProvider_getTimeData (nineToSix, \<lambda>n. 0)
     (sheetOf [headerRow, dayRow friday (Some []) (Some []), dayRow monday (Some []) (Some []),
               dayRow monday (Some []) None])) =
   \<lparr>success = True,
    message = Some (ascii ''Successfully filled 1 working days''),
    error = None, warning = None,
    details = Some (FillDetails \<lparr>filled = 1, skipped = 1, errors = 1\<rparr>)\<rparr>"
  by (simp add: eval_fill) (simp add: eval_js)

theorem fillTimeInputs_counter_partition_witness:
  "success (fst (fillTimeInputs Map.empty ConstantDataProvider_getTimeData (nineToSix, \<lambda>n. 0)
     (sheetOf [headerRow, dayRow friday (Some []) (Some []), dayRow monday (Some []) (Some []),
               dayRow monday (Some []) None]))) \<and>
   details (fst (fillTimeInputs Map.empty ConstantDataProvider_getTimeData (nineToSix, \<lambda>n. 0)
     (sheetOf [headerRow, dayRow friday (Some []) (Some []), dayRow monday (Some []) (Some []),
               dayRow monday (Some []) None]))) =
     Some (FillDetails \<lparr>filled = 1, skipped = 1, errors = 1\<rparr>) \<and>
   length (dateRowsOf \<lparr>insideAttendanceView = True,
      rows = [headerRow, dayRow friday (Some []) (Some []), dayRow monday (Some []) (Some []),
              dayRow monday (Some []) None]\<rparr>) = 3"
proof -
  let ?trs = "[headerRow, dayRow friday (Some []) (Some []), dayRow monday (Some []) (Some []),
               dayRow monday (Some []) None]"
  let ?r = "fst (fillTimeInputs Map.empty ConstantDataProvider_getTimeData (nineToSix, \<lambda>n. 0)
     (sheetOf ?trs))"
  have s: "success ?r" by (simp add: fill_three_rows)
  from fillTimeInputs_counter_partition
    [of Map.empty ConstantDataProvider_getTimeData "(nineToSix, \<lambda>n. 0)" "sheetOf ?trs"] s
  obtain d timeTable others fd where f: "dialog (sheetOf ?trs) = Some d"
    "hoursReports d = timeTable # others" "details ?r = Some (FillDetails fd)"
    "filled fd + skipped fd + errors fd = int (length (dateRowsOf timeTable))"
    by blast
  from f(1,2) have t: "timeTable = \<lparr>insideAttendanceView = True, rows = ?trs\<rparr>"
    by (auto simp: sheetOf_def)
  from f(3) have fd: "fd = \<lparr>filled = 1, skipped = 1, errors = 1\<rparr>" by (simp add: fill_three_rows)
  from f(4) have "length (dateRowsOf \<lparr>insideAttendanceView = True, rows = ?trs\<rparr>) = 3"
    unfolding t fd by simp
  with s f(3) fd show ?thesis by simp
qed




section \<open>Running the fill pass twice\<close>

lemma fillRowInputs_frame:
  "firstChild (snd (fillRowInputs row td d)) = firstChild row \<and>
   dateCell (snd (fillRowInputs row td d)) = dateCell row \<and>
   missingCell (snd (fillRowInputs row td d)) = missingCell row"
  by (simp add: fillRowInputs_def Let_def)

lemma parseDateRow_frame:
  "dateCell r' = dateCell r \<Longrightarrow> missingCell r' = missingCell r \<Longrightarrow> parseDateRow r' = parseDateRow r"
  by (simp add: parseDateRow_def Let_def split: option.splits)

lemma fillRowInputs_completes:
  assumes "success (fst (fillRowInputs row td d))"
    and "isInputFilled (Some (checkin td))" "isInputFilled (Some (checkout td))"
  shows "isRowComplete (snd (fillRowInputs row td d))"
  using assms
  by (cases "checkIn row"; cases "checkOut row")
     (auto simp: fillRowInputs_def isRowComplete_def Let_def failure_def)

lemma fillRowInputs_failure_unchanged:
  "\<not> success (fst (fillRowInputs row td d)) \<Longrightarrow>
     snd (fillRowInputs row td d) = row \<and> \<not> success (fst (fillRowInputs row td' d'))"
  by (auto simp: fillRowInputs_def Let_def failure_def split: if_splits)

lemma processRow_firstChild:
  "firstChild (snd (processRow sr dp row st)) = firstChild row"
  using fillRowInputs_frame
  by (auto simp: processRow_def split: prod.splits option.splits providerResult.splits)
    (metis snd_conv)+

text \<open>
  A row that one pass has processed is, on a later pass, either skipped or counted as an
  error, and is left as it is. This needs two things of the data source: whether it has
  data for a date does not depend on when it is asked, and the times it returns are
  not blank.
\<close>

lemma processRow_second_run:
  assumes A: "\<forall>d s s' td t. dp d s = (TimeData td, t) \<longrightarrow> (\<exists>td' t'. dp d s' = (TimeData td', t'))"
    and B: "\<forall>d s td t. dp d s = (TimeData td, t) \<longrightarrow>
              isInputFilled (Some (checkin td)) \<and> isInputFilled (Some (checkout td))"
    and run: "processRow sr dp row (c, s) = ((c1, s1), row1)"
  shows "\<exists>s2. processRow sr dp row1 (c', s') = ((c'\<lparr>skippedCount := skippedCount c' + 1\<rparr>, s2), row1) \<or>
              processRow sr dp row1 (c', s') = ((c'\<lparr>errorCount := errorCount c' + 1\<rparr>, s2), row1)"
proof (cases "parseDateRow row")
  case None
  with run have "row1 = row" by (simp add: processRow_def)
  with None show ?thesis by (auto simp: processRow_def)
next
  case (Some di)
  obtain skip di' where sk: "shouldSkipDate sr di = (skip, di')" by (metis surj_pair)
  show ?thesis
  proof (cases "skip \<or> isRowComplete row")
    case True
    with run Some sk have "row1 = row" by (auto simp: processRow_def split: if_splits)
    with True Some sk show ?thesis by (auto simp: processRow_def split: if_splits)
  next
    case False
    obtain pr t where call: "dp (date di') s = (pr, t)" by (metis surj_pair)
    obtain pr' t' where call': "dp (date di') s' = (pr', t')" by (metis surj_pair)
    show ?thesis
    proof (cases pr)
      case (TimeData td)
      from A call TimeData obtain td' u where "dp (date di') s' = (TimeData td', u)" by blast
      with call' have td': "pr' = TimeData td'" by simp
      from B call TimeData have nb: "isInputFilled (Some (checkin td))" "isInputFilled (Some (checkout td))"
        by blast+
      show ?thesis
      proof (cases "success (fst (fillRowInputs row td (date di')))")
        case True
        with run Some sk False call TimeData have r1: "row1 = snd (fillRowInputs row td (date di'))"
          by (auto simp: processRow_def split: prod.splits)
        have comp: "isRowComplete row1" unfolding r1 using True nb by (rule fillRowInputs_completes)
        have "parseDateRow row1 = Some di" unfolding r1
          using parseDateRow_frame [of "snd (fillRowInputs row td (date di'))" row] fillRowInputs_frame Some
          by simp
        with sk False comp show ?thesis by (auto simp: processRow_def)
      next
        case f: False
        from fillRowInputs_failure_unchanged [OF f, of td' "date di'"]
        have u: "snd (fillRowInputs row td (date di')) = row"
          "\<not> success (fst (fillRowInputs row td' (date di')))" by simp_all
        with run Some sk False call TimeData f have r1: "row1 = row"
          by (auto simp: processRow_def split: prod.splits)
        from fillRowInputs_failure_unchanged [OF u(2), of td "date di'"]
        have "snd (fillRowInputs row td' (date di')) = row" by simp
        with Some sk False call' td' u(2) show ?thesis unfolding r1
          by (auto simp: processRow_def split: prod.splits)
      qed
    next
      case Raises
      with run Some sk False call have r1: "row1 = row" by (auto simp: processRow_def)
      have "\<forall>td. pr' \<noteq> TimeData td"
      proof (intro allI notI)
        fix td assume "pr' = TimeData td"
        with A call' obtain td0 u where "dp (date di') s = (TimeData td0, u)" by blast
        with call Raises show False by simp
      qed
      with Some sk False call' show ?thesis unfolding r1
        by (cases pr') (auto simp: processRow_def)
    next
      case NoData
      with run Some sk False call have r1: "row1 = row" by (auto simp: processRow_def)
      have "\<forall>td. pr' \<noteq> TimeData td"
      proof (intro allI notI)
        fix td assume "pr' = TimeData td"
        with A call' obtain td0 u where "dp (date di') s = (TimeData td0, u)" by blast
        with call NoData show False by simp
      qed
      with Some sk False call' show ?thesis unfolding r1
        by (cases pr') (auto simp: processRow_def)
    qed
  qed
qed

text \<open>A row whose inputs are both filled is counted as skipped and is not written to.\<close>

lemma processRow_complete:
  "isRowComplete row \<Longrightarrow>
     processRow sr dp row (c, s) = ((c\<lparr>skippedCount := skippedCount c + 1\<rparr>, s), row)"
  by (auto simp: processRow_def split: option.splits prod.splits)

lemma forRows_second_run:
  assumes A: "\<forall>d s s' td t. dp d s = (TimeData td, t) \<longrightarrow> (\<exists>td' t'. dp d s' = (TimeData td', t'))"
    and B: "\<forall>d s td t. dp d s = (TimeData td, t) \<longrightarrow>
              isInputFilled (Some (checkin td)) \<and> isInputFilled (Some (checkout td))"
  shows "forRows sr dp dateRows (c, s) = ((c1, s1), dateRows1) \<Longrightarrow>
         \<exists>c2 s2. forRows sr dp dateRows1 (c', s') = ((c2, s2), dateRows1) \<and>
                 filledCount c2 = filledCount c'"
proof (induction dateRows arbitrary: c s c1 s1 dateRows1 c' s')
  case Nil
  then show ?case by simp
next
  case (Cons row dateRows)
  obtain ca sa row1 where p: "processRow sr dp row (c, s) = ((ca, sa), row1)"
    by (metis surj_pair)
  obtain cb sb rows1 where f: "forRows sr dp dateRows (ca, sa) = ((cb, sb), rows1)"
    by (metis surj_pair)
  from Cons.prems p f have e: "dateRows1 = row1 # rows1" by simp
  from processRow_second_run [OF A B p, of c' s'] obtain cc sc where
    q: "processRow sr dp row1 (c', s') = ((cc, sc), row1)" "filledCount cc = filledCount c'"
    by auto
  from Cons.IH [OF f, of cc sc] obtain c2 s2 where
    g: "forRows sr dp rows1 (cc, sc) = ((c2, s2), rows1)" "filledCount c2 = filledCount cc"
    by blast
  from q g show ?case unfolding e by simp
qed

lemma forRows_firstChild:
  "forRows sr dp dateRows st = (st', dateRows') \<Longrightarrow> map firstChild dateRows' = map firstChild dateRows"
proof (induction dateRows arbitrary: st st' dateRows')
  case Nil
  then show ?case by simp
next
  case (Cons row dateRows)
  obtain sa row1 where p: "processRow sr dp row st = (sa, row1)" by (metis surj_pair)
  obtain sb rows1 where f: "forRows sr dp dateRows sa = (sb, rows1)" by (metis surj_pair)
  from Cons.prems p f have e: "dateRows' = row1 # rows1" by simp
  from processRow_firstChild [of sr dp row st] p have "firstChild row1 = firstChild row" by simp
  with Cons.IH [OF f] show ?case unfolding e by simp
qed

lemma filter_putRows:
  "length ds = length (filter (\<lambda>r. \<not> firstChild r) rs) \<Longrightarrow> list_all (\<lambda>d. \<not> firstChild d) ds \<Longrightarrow>
     filter (\<lambda>r. \<not> firstChild r) (putRows rs ds) = ds"
proof (induction rs arbitrary: ds)
  case Nil
  then show ?case by simp
next
  case (Cons r rs)
  then show ?case by (cases ds) (auto split: if_splits)
qed

lemma putRows_again:
  "length ds = length (filter (\<lambda>r. \<not> firstChild r) rs) \<Longrightarrow> list_all (\<lambda>d. \<not> firstChild d) ds \<Longrightarrow>
     putRows (putRows rs ds) ds = putRows rs ds"
proof (induction rs arbitrary: ds)
  case Nil
  then show ?case by simp
next
  case (Cons r rs)
  then show ?case by (cases ds) (auto split: if_splits)
qed

text \<open>
  The modular fill pass is idempotent for such a data source: run again over the document
  that a first run left, from any state of the provider, it changes nothing and reports
  no row as filled.
\<close>

lemma fillTimeInputs_second_run:
  assumes A: "\<forall>d s s' td t. dp d s = (TimeData td, t) \<longrightarrow> (\<exists>td' t'. dp d s' = (TimeData td', t'))"
    and B: "\<forall>d s td t. dp d s = (TimeData td, t) \<longrightarrow>
              isInputFilled (Some (checkin td)) \<and> isInputFilled (Some (checkout td))"
    and run: "fillTimeInputs sr dp s doc = (r1, s1, doc1)"
  shows "snd (snd (fillTimeInputs sr dp s' doc1)) = doc1 \<and>
         (success (fst (fillTimeInputs sr dp s' doc1)) \<longrightarrow>
            (\<exists>fd. details (fst (fillTimeInputs sr dp s' doc1)) = Some (FillDetails fd) \<and> filled fd = 0))"
proof (cases "dialog doc")
  case None
  with run have "doc1 = doc" by (simp add: fillTimeInputs_def)
  with None show ?thesis by (simp add: fillTimeInputs_def failure_def)
next
  case (Some d)
  show ?thesis
  proof (cases "hoursReports d")
    case Nil
    with Some run have "doc1 = doc" by (simp add: fillTimeInputs_def)
    with Some Nil show ?thesis by (simp add: fillTimeInputs_def failure_def)
  next
    case (Cons timeTable others)
    obtain c1 t1 rows1 where f: "forRows sr dp (dateRowsOf timeTable)
        (\<lparr>filledCount = 0, skippedCount = 0, errorCount = 0\<rparr>, s) = ((c1, t1), rows1)"
      by (metis surj_pair)
    let ?table1 = "timeTable\<lparr>rows := putRows (rows timeTable) rows1\<rparr>"
    from run Some Cons f have d1: "doc1 = doc\<lparr>dialog := Some (d\<lparr>hoursReports := ?table1 # others\<rparr>)\<rparr>"
      by (simp add: fillTimeInputs_def)
    have len: "length rows1 = length (filter (\<lambda>r. \<not> firstChild r) (rows timeTable))"
      using forRows_counters [OF f] by (simp add: dateRowsOf_def)
    have "map firstChild rows1 = map firstChild (dateRowsOf timeTable)"
      using f by (rule forRows_firstChild)
    then have "list_all (\<lambda>d. \<not> firstChild d) rows1 = list_all (\<lambda>d. \<not> firstChild d) (dateRowsOf timeTable)"
      by (metis (mono_tags, lifting) list_all_length length_map nth_map)
    then have fc: "list_all (\<lambda>d. \<not> firstChild d) rows1"
      by (simp add: dateRowsOf_def list_all_iff)
    have dr: "dateRowsOf ?table1 = rows1"
      using filter_putRows [OF len fc] by (simp add: dateRowsOf_def)
    from forRows_second_run [OF A B f, of "\<lparr>filledCount = 0, skippedCount = 0, errorCount = 0\<rparr>" s']
    obtain c2 s2 where g: "forRows sr dp rows1
        (\<lparr>filledCount = 0, skippedCount = 0, errorCount = 0\<rparr>, s') = ((c2, s2), rows1)"
      "filledCount c2 = 0" by auto
    from g dr putRows_again [OF len fc] show ?thesis
      unfolding d1 by (simp add: fillTimeInputs_def)
  qed
qed

section \<open>The fill pass of the legacy content script\<close>

lemmas eval_fill_legacy = fillTimeInputs_legacy_def sheetOf_def dateRowsOf_def headerRow_def
  dayRow_def processRow_legacy_def parseDateRow_legacy_def matchDate_monday
  shouldSkipDate_legacy_def isRowComplete_def isInputFilled_def fillRowInputs_def failure_def
  Let_def str_includes_def sublist_code ConstantDataProvider_getTimeData_def getTimeData_def
  nineToSix_def

text \<open>
  Claim C1. The legacy \<open>fillTimeInputs\<close> is run twice over a sheet with one working day
  whose inputs are empty, with the constant provider 09:00 to 18:00. The first run fills
  the row. On the second run the row is complete, nothing is written and nothing is
  counted as filled, but the row is counted as an error and not as skipped: the
  statement that should count it increments a variable that is not declared. The modular
  \<open>fillTimeInputs\<close>, run over the same filled sheet, counts the row as skipped.
\<close>

theorem legacy_second_run_counts_complete_row_as_error:
  "fillTimeInputs_legacy ConstantDataProvider_getTimeData (nineToSix, \<lambda>n. 0)
     (sheetOf [headerRow, dayRow monday (Some []) (Some [])]) =
     (\<lparr>success = True, message = Some (ascii ''Successfully filled 1 working days''),
       error = None, warning = None,
       details = Some (FillDetails \<lparr>filled = 1, skipped = 0, errors = 0\<rparr>)\<rparr>,
      (nineToSix, \<lambda>n. 0),
      sheetOf [headerRow, (dayRow monday (Some (ascii ''09:00'')) (Some (ascii ''18:00'')))
         \<lparr>dispatched := [InputEvent CheckIn, ChangeEvent CheckIn,
                         InputEvent CheckOut, ChangeEvent CheckOut]\<rparr>]) \<and>
   fillTimeInputs_legacy ConstantDataProvider_getTimeData (nineToSix, \<lambda>n. 0)
     (sheetOf [headerRow, (dayRow monday (Some (ascii ''09:00'')) (Some (ascii ''18:00'')))
         \<lparr>dispatched := [InputEvent CheckIn, ChangeEvent CheckIn,
                         InputEvent CheckOut, ChangeEvent CheckOut]\<rparr>]) =
     (\<lparr>success = True, message = Some (ascii ''Successfully filled 0 working days''),
       error = None, warning = None,
       details = Some (FillDetails \<lparr>filled = 0, skipped = 0, errors = 1\<rparr>)\<rparr>,
      (nineToSix, \<lambda>n. 0),
      sheetOf [headerRow, (dayRow monday (Some (ascii ''09:00'')) (Some (ascii ''18:00'')))
         \<lparr>dispatched := [InputEvent CheckIn, ChangeEvent CheckIn,
                         InputEvent CheckOut, ChangeEvent CheckOut]\<rparr>]) \<and>
   fst (fillTimeInputs Map.empty ConstantDataProvider_getTimeData (nineToSix, \<lambda>n. 0)
     (sheetOf [headerRow, (dayRow monday (Some (ascii ''09:00'')) (Some (ascii ''18:00'')))
         \<lparr>dispatched := [InputEvent CheckIn, ChangeEvent CheckIn,
                         InputEvent CheckOut, ChangeEvent CheckOut]\<rparr>])) =
     \<lparr>success = True, message = Some (ascii ''Successfully filled 0 working days''),
      error = None, warning = None,
      details = Some (FillDetails \<lparr>filled = 0, skipped = 1, errors = 0\<rparr>)\<rparr>"
  by (simp add: eval_fill_legacy eval_fill) (simp add: eval_js)


section \<open>Polling for the dialog\<close>

lemma sleep_fields:
  "clock (sleep host ms w) = clock w + ms"
  "waitAttempts (sleep host ms w) = waitAttempts w"
  "closeAttempts (sleep host ms w) = closeAttempts w"
  "triggerClicks (sleep host ms w) = triggerClicks w"
  "submitClicks (sleep host ms w) = submitClicks w"
  "page (sleep host ms w) = snd (host (Timeout ms) (hostState w, page w))"
  "hostState (sleep host ms w) = fst (host (Timeout ms) (hostState w, page w))"
  by (simp_all add: sleep_def react_def split: prod.splits)

lemma react_fields:
  "clock (react host ev w) = clock w"
  "waitAttempts (react host ev w) = waitAttempts w"
  "closeAttempts (react host ev w) = closeAttempts w"
  "triggerClicks (react host ev w) = triggerClicks w"
  "submitClicks (react host ev w) = submitClicks w"
  "page (react host ev w) = snd (host ev (hostState w, page w))"
  "hostState (react host ev w) = fst (host ev (hostState w, page w))"
  by (simp_all add: react_def split: prod.splits)

lemma waitForDialogFrom_never_ready:
  "\<forall>ev st. I st \<longrightarrow> I (host ev st) \<Longrightarrow>
   \<forall>h d. I (h, d) \<longrightarrow> isl (readinessChecks d) \<Longrightarrow>
   I (hostState w, page w) \<Longrightarrow>
   fst (waitForDialogFrom host maxRetries delayMs attempt w) =
     failure (ascii ''Dialog not ready after '' @ String (Some maxRetries) @ ascii '' attempts ('' @
              String (Some (maxRetries * int delayMs)) @ ascii ''ms total wait time)'') \<and>
   waitAttempts (snd (waitForDialogFrom host maxRetries delayMs attempt w)) =
     waitAttempts w + nat (maxRetries + 1 - attempt) \<and>
   clock (snd (waitForDialogFrom host maxRetries delayMs attempt w)) =
     clock w + nat (maxRetries + 1 - attempt) * delayMs \<and>
   triggerClicks (snd (waitForDialogFrom host maxRetries delayMs attempt w)) = triggerClicks w \<and>
   submitClicks (snd (waitForDialogFrom host maxRetries delayMs attempt w)) = submitClicks w"
proof (induction host maxRetries delayMs attempt w rule: waitForDialogFrom.induct)
  case (1 host maxRetries delayMs attempt w)
  show ?case
  proof (cases "attempt \<le> maxRetries")
    case False
    then have e: "waitForDialogFrom host maxRetries delayMs attempt w =
        (failure (ascii ''Dialog not ready after '' @ String (Some maxRetries) @ ascii '' attempts ('' @
              String (Some (maxRetries * int delayMs)) @ ascii ''ms total wait time)''), w)"
      by (simp add: waitForDialogFrom.simps [of host maxRetries delayMs attempt w])
    from False have "nat (maxRetries + 1 - attempt) = 0" by simp
    then show ?thesis unfolding e by simp
  next
    case True
    from "1.prems"(2,3) have "isl (readinessChecks (page w))" by blast
    then obtain m where m: "readinessChecks (page w) = Inl m"
      by (cases "readinessChecks (page w)") auto
    let ?w = "sleep host delayMs (w\<lparr>waitAttempts := waitAttempts w + 1\<rparr>)"
    have "I (host (Timeout delayMs) (hostState w, page w))" using "1.prems"(1,3) by blast
    then have nr: "I (hostState ?w, page ?w)" by (simp add: sleep_fields)
    have step: "waitForDialogFrom host maxRetries delayMs attempt w =
        waitForDialogFrom host maxRetries delayMs (attempt + 1) ?w"
      using True m by (simp add: waitForDialogFrom.simps [of host maxRetries delayMs attempt w])
    have n: "nat (maxRetries + 1 - attempt) = Suc (nat (maxRetries + 1 - (attempt + 1)))"
      using True by simp
    from "1.IH" [OF True m "1.prems"(1,2) nr] True show ?thesis
      unfolding step n by (simp add: sleep_fields)
  qed
qed

text \<open>
  Claim C6. Let the host be such that, whatever the program does, the document it shows
  fails some readiness check: there is an invariant \<open>I\<close> of the host and its document
  that holds at the start, that every reaction of the host keeps, and under which some
  check fails. Then for every \<open>maxRetries \<ge> 1\<close> and every delay, \<open>waitForDialog\<close>
  returns (the function is total) the not-ready failure after exactly \<open>maxRetries\<close>
  attempts, having slept \<open>maxRetries\<close> times the delay in all, which is within the bound
  of \<open>maxRetries\<close> times the delay. With 5 attempts 10 ms apart that is 5 attempts and at
  least 40 ms.
\<close>

theorem waitForDialog_exhausts:
  assumes "1 \<le> maxRetries"
    and "I (hostState w, page w)"
    and "\<forall>ev st. I st \<longrightarrow> I (host ev st)"
    and "\<forall>h d. I (h, d) \<longrightarrow> isl (readinessChecks d)"
  shows "fst (waitForDialog host maxRetries delayMs w) =
           failure (ascii ''Dialog not ready after '' @ String (Some maxRetries) @
                    ascii '' attempts ('' @ String (Some (maxRetries * int delayMs)) @
                    ascii ''ms total wait time)'') \<and>
         \<not> success (fst (waitForDialog host maxRetries delayMs w)) \<and>
         waitAttempts (snd (waitForDialog host maxRetries delayMs w)) = waitAttempts w + nat maxRetries \<and>
         clock (snd (waitForDialog host maxRetries delayMs w)) = clock w + nat maxRetries * delayMs \<and>
         clock (snd (waitForDialog host maxRetries delayMs w)) - clock w \<le> nat maxRetries * delayMs \<and>
         (maxRetries = 5 \<and> delayMs = 10 \<longrightarrow>
            waitAttempts (snd (waitForDialog host maxRetries delayMs w)) = waitAttempts w + 5 \<and>
            40 \<le> clock (snd (waitForDialog host maxRetries delayMs w)) - clock w)"
  using waitForDialogFrom_never_ready [OF assms(3,4,2), of maxRetries delayMs 1]
  by (auto simp: waitForDialog_def failure_def)

theorem waitForDialog_exhausts_witness:
  "isl (readinessChecks (page (worldOf pageWithoutDialog))) \<and>
   success (fst (waitForDialog idleHost 5 10 (worldOf pageWithoutDialog))) = False \<and>
   waitAttempts (snd (waitForDialog idleHost 5 10 (worldOf pageWithoutDialog))) = 5 \<and>
   clock (snd (waitForDialog idleHost 5 10 (worldOf pageWithoutDialog))) = 50"
proof -
  let ?I = "\<lambda>st :: unit \<times> document. snd st = pageWithoutDialog"
  have a: "?I (hostState (worldOf pageWithoutDialog), page (worldOf pageWithoutDialog))"
    by (simp add: worldOf_def)
  have b: "\<forall>ev st. ?I st \<longrightarrow> ?I (idleHost ev st)"
    by (simp add: idleHost_def)
  have n: "\<forall>h d. ?I (h, d) \<longrightarrow> isl (readinessChecks d)"
    by (simp add: pageWithoutDialog_def readinessChecks_def isDialogOpen_def)
  have c: "(1::int) \<le> 5" by simp
  from n have r: "isl (readinessChecks (page (worldOf pageWithoutDialog)))"
    by (simp add: worldOf_def)
  from waitForDialog_exhausts [of 5 ?I "worldOf pageWithoutDialog" idleHost 10, OF c a b n] r
  show ?thesis by (simp add: worldOf_def failure_def)
qed

section \<open>Submitting\<close>

lemma waitForDialogCloseFrom_stays_open:
  "\<forall>ev st. I st \<longrightarrow> I (host ev st) \<Longrightarrow>
   \<forall>h d. I (h, d) \<longrightarrow> isDialogOpen d \<Longrightarrow>
   I (hostState w, page w) \<Longrightarrow>
   \<not> success (fst (waitForDialogCloseFrom host maxRetries delayMs attempt w)) \<and>
   closeAttempts (snd (waitForDialogCloseFrom host maxRetries delayMs attempt w)) =
     closeAttempts w + nat (maxRetries + 1 - attempt) \<and>
   clock (snd (waitForDialogCloseFrom host maxRetries delayMs attempt w)) =
     clock w + nat (maxRetries - attempt) * delayMs \<and>
   submitClicks (snd (waitForDialogCloseFrom host maxRetries delayMs attempt w)) = submitClicks w \<and>
   isDialogOpen (page (snd (waitForDialogCloseFrom host maxRetries delayMs attempt w)))"
proof (induction host maxRetries delayMs attempt w rule: waitForDialogCloseFrom.induct)
  case (1 host maxRetries delayMs attempt w)
  from "1.prems"(2,3) have open_now: "isDialogOpen (page w)" by blast
  show ?case
  proof (cases "attempt \<le> maxRetries")
    case False
    then have e: "waitForDialogCloseFrom host maxRetries delayMs attempt w =
        (failure (ascii ''Dialog did not close after '' @ String (Some (maxRetries * int delayMs)) @
                  ascii ''ms''), w)"
      by (simp add: waitForDialogCloseFrom.simps [of host maxRetries delayMs attempt w])
    from False have "nat (maxRetries + 1 - attempt) = 0" "nat (maxRetries - attempt) = 0"
      by simp_all
    then show ?thesis unfolding e using open_now by (simp add: failure_def)
  next
    case True
    from open_now obtain d where d: "dialog (page w) = Some d"
      "styleDisplay d = ascii ''block'' \<or> computedDisplay d \<noteq> ascii ''none''"
      by (auto simp: isDialogOpen_def split: option.splits)
    let ?w1 = "w\<lparr>closeAttempts := closeAttempts w + 1\<rparr>"
    let ?w = "if attempt < maxRetries then sleep host delayMs ?w1 else ?w1"
    have "I (host (Timeout delayMs) (hostState w, page w))" using "1.prems"(1,3) by blast
    then have op: "I (hostState ?w, page ?w)" using "1.prems"(3) by (simp add: sleep_fields)
    have step: "waitForDialogCloseFrom host maxRetries delayMs attempt w =
        waitForDialogCloseFrom host maxRetries delayMs (attempt + 1) ?w"
      using True d by (auto simp: waitForDialogCloseFrom.simps [of host maxRetries delayMs attempt w])
    have n: "nat (maxRetries + 1 - attempt) = Suc (nat (maxRetries + 1 - (attempt + 1)))"
      using True by simp
    have k: "attempt < maxRetries \<Longrightarrow> nat (maxRetries - attempt) = Suc (nat (maxRetries - (attempt + 1)))"
      by simp
    from "1.IH" [OF True d(1) _ "1.prems"(1,2) op] True d(2) show ?thesis
      unfolding step n by (cases "attempt < maxRetries") (auto simp: sleep_fields k)
  qed
qed

lemma submitForm_disabled:
  assumes "dialog (page w) = Some d" "submitButton d = Some b" "disabled b"
  shows "submitForm host defaultRetries defaultDelay w = (failure (ascii ''Submit button is disabled''), w)"
  using assms by (simp add: submitForm_def)

lemma submitForm_stays_open:
  assumes "dialog (page w) = Some d" "submitButton d = Some b" "\<not> disabled b"
    and "I (hostState w, page w)"
    and "\<forall>ev st. I st \<longrightarrow> I (host ev st)"
    and "\<forall>h d'. I (h, d') \<longrightarrow> isDialogOpen d'"
  shows "fst (submitForm host defaultRetries defaultDelay w) =
           \<lparr>success = True,
            message = Some (ascii ''Submit button clicked, but dialog remained open (check for validation errors)''),
            error = None, warning = Some (ascii ''Dialog did not close automatically''),
            details = None\<rparr> \<and>
         submitClicks (snd (submitForm host defaultRetries defaultDelay w)) = submitClicks w + 1 \<and>
         closeAttempts (snd (submitForm host defaultRetries defaultDelay w)) =
           closeAttempts w + nat defaultRetries"
proof -
  let ?w1 = "react host SubmitClick (w\<lparr>submitClicks := submitClicks w + 1\<rparr>)"
  let ?w2 = "sleep host 500 ?w1"
  have "I (host SubmitClick (hostState w, page w))" using assms(4,5) by blast
  then have "I (hostState ?w1, page ?w1)" by (simp add: react_fields)
  then have "I (host (Timeout 500) (hostState ?w1, page ?w1))" using assms(5) by blast
  then have op: "I (hostState ?w2, page ?w2)" by (simp add: sleep_fields)
  obtain r w3 where c: "waitForDialogCloseFrom host defaultRetries defaultDelay 1 ?w2 = (r, w3)"
    by (metis surj_pair)
  from waitForDialogCloseFrom_stays_open [OF assms(5,6) op, of defaultRetries defaultDelay 1]
  have r: "\<not> success r" "closeAttempts w3 = closeAttempts w + nat defaultRetries"
    "submitClicks w3 = submitClicks w + 1"
    unfolding c by (simp_all add: sleep_fields react_fields)
  have "submitForm host defaultRetries defaultDelay w =
      (\<lparr>success = True,
        message = Some (ascii ''Submit button clicked, but dialog remained open (check for validation errors)''),
        error = None, warning = Some (ascii ''Dialog did not close automatically''),
        details = None\<rparr>, w3)"
    using assms(1-3) c r(1) by (simp add: submitForm_def Let_def waitForDialogClose_def)
  with r show ?thesis by simp
qed

text \<open>
  Claim C7. When the submit control is present and disabled, \<open>submitForm\<close> returns the
  failure \<open>Submit button is disabled\<close> and leaves the world as it was: nothing is clicked.
  When the control is enabled and the dialog stays present and visible whatever the
  program does (an invariant \<open>I\<close> of the host and its document holds at the start, every
  reaction of the host keeps it, and under it the dialog is open), \<open>submitForm\<close> clicks
  once, makes its bounded number of close checks, and returns \<open>success = true\<close> with a
  warning and no error.
\<close>

theorem submitForm_contract:
  "(dialog (page w) = Some d \<and> submitButton d = Some b \<and> disabled b \<longrightarrow>
      submitForm host defaultRetries defaultDelay w =
        (failure (ascii ''Submit button is disabled''), w) \<and>
      \<not> success (fst (submitForm host defaultRetries defaultDelay w)) \<and>
      submitClicks (snd (submitForm host defaultRetries defaultDelay w)) = submitClicks w) \<and>
   (dialog (page w) = Some d \<and> submitButton d = Some b \<and> \<not> disabled b \<and>
    I (hostState w, page w) \<and> (\<forall>ev st. I st \<longrightarrow> I (host ev st)) \<and>
    (\<forall>h d'. I (h, d') \<longrightarrow> isDialogOpen d') \<longrightarrow>
      success (fst (submitForm host defaultRetries defaultDelay w)) \<and>
      warning (fst (submitForm host defaultRetries defaultDelay w)) =
        Some (ascii ''Dialog did not close automatically'') \<and>
      error (fst (submitForm host defaultRetries defaultDelay w)) = None \<and>
      submitClicks (snd (submitForm host defaultRetries defaultDelay w)) = submitClicks w + 1 \<and>
      closeAttempts (snd (submitForm host defaultRetries defaultDelay w)) =
        closeAttempts w + nat defaultRetries)"
proof (intro conjI impI)
  assume a: "dialog (page w) = Some d \<and> submitButton d = Some b \<and> disabled b"
  then have e: "submitForm host defaultRetries defaultDelay w =
      (failure (ascii ''Submit button is disabled''), w)"
    using submitForm_disabled by blast
  show "submitForm host defaultRetries defaultDelay w =
      (failure (ascii ''Submit button is disabled''), w)" by (rule e)
  show "\<not> success (fst (submitForm host defaultRetries defaultDelay w))"
    unfolding e by (simp add: failure_def)
  show "submitClicks (snd (submitForm host defaultRetries defaultDelay w)) = submitClicks w"
    unfolding e by simp
next
  assume a: "dialog (page w) = Some d \<and> submitButton d = Some b \<and> \<not> disabled b \<and>
    I (hostState w, page w) \<and> (\<forall>ev st. I st \<longrightarrow> I (host ev st)) \<and>
    (\<forall>h d'. I (h, d') \<longrightarrow> isDialogOpen d')"
  then have r: "fst (submitForm host defaultRetries defaultDelay w) =
           \<lparr>success = True,
            message = Some (ascii ''Submit button clicked, but dialog remained open (check for validation errors)''),
            error = None, warning = Some (ascii ''Dialog did not close automatically''),
            details = None\<rparr> \<and>
         submitClicks (snd (submitForm host defaultRetries defaultDelay w)) = submitClicks w + 1 \<and>
         closeAttempts (snd (submitForm host defaultRetries defaultDelay w)) =
           closeAttempts w + nat defaultRetries"
    using submitForm_stays_open [of w d b I host defaultRetries defaultDelay] by blast
  from r show "success (fst (submitForm host defaultRetries defaultDelay w))" by simp
  from r show "warning (fst (submitForm host defaultRetries defaultDelay w)) =
        Some (ascii ''Dialog did not close automatically'')" by simp
  from r show "error (fst (submitForm host defaultRetries defaultDelay w)) = None" by simp
  from r show "submitClicks (snd (submitForm host defaultRetries defaultDelay w)) = submitClicks w + 1"
    by simp
  from r show "closeAttempts (snd (submitForm host defaultRetries defaultDelay w)) =
        closeAttempts w + nat defaultRetries" by simp
qed

theorem submitForm_contract_witness:
  "submitForm idleHost 15 1000 (worldOf pageWithDisabledSubmit) =
     (failure (ascii ''Submit button is disabled''), worldOf pageWithDisabledSubmit) \<and>
   submitClicks (snd (submitForm idleHost 15 1000 (worldOf pageWithDisabledSubmit))) = 0 \<and>
   isDialogOpen (page (worldOf (sheetOf [headerRow]))) \<and>
   success (fst (submitForm idleHost 15 1000 (worldOf (sheetOf [headerRow])))) \<and>
   warning (fst (submitForm idleHost 15 1000 (worldOf (sheetOf [headerRow])))) =
     Some (ascii ''Dialog did not close automatically'') \<and>
   submitClicks (snd (submitForm idleHost 15 1000 (worldOf (sheetOf [headerRow])))) = 1 \<and>
   closeAttempts (snd (submitForm idleHost 15 1000 (worldOf (sheetOf [headerRow])))) = 15"
proof -
  let ?I = "\<lambda>st :: unit \<times> document. snd st = sheetOf [headerRow]"
  have i: "\<forall>ev st. ?I st \<longrightarrow> ?I (idleHost ev st)"
    by (simp add: idleHost_def)
  have o: "\<forall>h d'. ?I (h, d') \<longrightarrow> isDialogOpen d'"
    by (simp add: sheetOf_def isDialogOpen_def)
  have s: "?I (hostState (worldOf (sheetOf [headerRow])), page (worldOf (sheetOf [headerRow])))"
    by (simp add: worldOf_def)
  have d1: "dialog (page (worldOf pageWithDisabledSubmit)) =
      Some \<lparr>styleDisplay = ascii ''block'', computedDisplay = ascii ''block'',
            attendanceView = None, hoursReports = [], submitButton = Some \<lparr>disabled = True\<rparr>\<rparr>"
    by (simp add: worldOf_def pageWithDisabledSubmit_def)
  have d2: "dialog (page (worldOf (sheetOf [headerRow]))) =
      Some \<lparr>styleDisplay = ascii ''block'', computedDisplay = ascii ''block'',
            attendanceView = Some \<lparr>viewStyleDisplay = [], viewComputedDisplay = ascii ''block''\<rparr>,
            hoursReports = [\<lparr>insideAttendanceView = True, rows = [headerRow]\<rparr>],
            submitButton = Some \<lparr>disabled = False\<rparr>\<rparr>"
    by (simp add: worldOf_def sheetOf_def)
  from submitForm_contract [of "worldOf pageWithDisabledSubmit"
      "\<lparr>styleDisplay = ascii ''block'', computedDisplay = ascii ''block'',
        attendanceView = None, hoursReports = [], submitButton = Some \<lparr>disabled = True\<rparr>\<rparr>"
      "\<lparr>disabled = True\<rparr>" idleHost 15 1000] d1
  have a: "submitForm idleHost 15 1000 (worldOf pageWithDisabledSubmit) =
      (failure (ascii ''Submit button is disabled''), worldOf pageWithDisabledSubmit) \<and>
    submitClicks (snd (submitForm idleHost 15 1000 (worldOf pageWithDisabledSubmit))) =
      submitClicks (worldOf pageWithDisabledSubmit)"
    by simp
  from submitForm_contract [of "worldOf (sheetOf [headerRow])"
      "\<lparr>styleDisplay = ascii ''block'', computedDisplay = ascii ''block'',
        attendanceView = Some \<lparr>viewStyleDisplay = [], viewComputedDisplay = ascii ''block''\<rparr>,
        hoursReports = [\<lparr>insideAttendanceView = True, rows = [headerRow]\<rparr>],
        submitButton = Some \<lparr>disabled = False\<rparr>\<rparr>"
      "\<lparr>disabled = False\<rparr>" idleHost 15 1000 ?I] d2 s i o
  have b: "success (fst (submitForm idleHost 15 1000 (worldOf (sheetOf [headerRow])))) \<and>
      warning (fst (submitForm idleHost 15 1000 (worldOf (sheetOf [headerRow])))) =
        Some (ascii ''Dialog did not close automatically'') \<and>
      submitClicks (snd (submitForm idleHost 15 1000 (worldOf (sheetOf [headerRow])))) =
        submitClicks (worldOf (sheetOf [headerRow])) + 1 \<and>
      closeAttempts (snd (submitForm idleHost 15 1000 (worldOf (sheetOf [headerRow])))) =
        closeAttempts (worldOf (sheetOf [headerRow])) + nat 15"
    by simp
  have op: "isDialogOpen (page (worldOf (sheetOf [headerRow])))"
    by (simp add: worldOf_def sheetOf_def isDialogOpen_def)
  from a b op show ?thesis by (simp add: worldOf_def)
qed

section \<open>Opening the dialog\<close>

lemma open_then_poll:
  assumes "openDialog host w = (r1, w1)" "success r1"
    and "waitForDialog host (waitForDialogMaxRetries cfg) (waitForDialogDelayTime cfg) w1 = (r2, w2)"
    and "\<not> success r2"
  shows "fillWorkingHours host cfg startTime endTime h w = (r2, w2)"
  using assms by (simp add: fillWorkingHours_def Let_def)

text \<open>
  Claim C8, as stated, fails: on a page with the trigger control and no dialog container,
  \<open>openDialog\<close> clicks the trigger and returns \<open>success = true\<close>, and the run goes on to
  poll; here it polls three times before it gives up.
\<close>

theorem openDialog_clicks_without_dialog:
  "trigger (page (worldOf pageWithoutDialog)) \<and>
   dialog (page (worldOf pageWithoutDialog)) = None \<and>
   success (fst (openDialog idleHost (worldOf pageWithoutDialog))) \<and>
   triggerClicks (snd (openDialog idleHost (worldOf pageWithoutDialog))) = 1 \<and>
   success (fst (fillWorkingHours idleHost threeRetries (ascii ''09:00'') (ascii ''18:00'') False
      (worldOf pageWithoutDialog))) = False \<and>
   triggerClicks (snd (fillWorkingHours idleHost threeRetries (ascii ''09:00'') (ascii ''18:00'') False
      (worldOf pageWithoutDialog))) = 1 \<and>
   waitAttempts (snd (fillWorkingHours idleHost threeRetries (ascii ''09:00'') (ascii ''18:00'') False
      (worldOf pageWithoutDialog))) = 3"
proof -
  obtain r1 w1 where o: "openDialog idleHost (worldOf pageWithoutDialog) = (r1, w1)"
    by (metis surj_pair)
  then have o1: "success r1" "triggerClicks w1 = 1" "waitAttempts w1 = 0"
    "isl (readinessChecks (page w1))"
    by (auto simp: openDialog_def worldOf_def pageWithoutDialog_def succeeded_def Let_def
        sleep_def react_def idleHost_def readinessChecks_def isDialogOpen_def)
  have b: "\<forall>ev st. isl (readinessChecks (snd st)) \<longrightarrow> isl (readinessChecks (snd (idleHost ev st)))"
    by (simp add: idleHost_def)
  have n: "\<forall>h d. isl (readinessChecks (snd (h, d))) \<longrightarrow> isl (readinessChecks d)"
    by simp
  have i: "isl (readinessChecks (snd (hostState w1, page w1)))" using o1(4) by simp
  obtain r2 w2 where p: "waitForDialog idleHost (waitForDialogMaxRetries threeRetries)
      (waitForDialogDelayTime threeRetries) w1 = (r2, w2)"
    by (metis surj_pair)
  from waitForDialogFrom_never_ready
    [of "\<lambda>st. isl (readinessChecks (snd st))" idleHost w1 3 10 1, OF b n i] p o1
  have p1: "\<not> success r2" "waitAttempts w2 = 3" "triggerClicks w2 = 1"
    by (simp_all add: waitForDialog_def threeRetries_def failure_def)
  from open_then_poll [OF o o1(1) p p1(1)]
  have "fillWorkingHours idleHost threeRetries (ascii ''09:00'') (ascii ''18:00'') False
      (worldOf pageWithoutDialog) = (r2, w2)" .
  with o o1 p1 show ?thesis by (simp add: worldOf_def pageWithoutDialog_def)
qed

text \<open>
  Claim C8, amended. What \<open>openDialog\<close> looks for is the trigger control, not the dialog
  container. When the trigger control is absent from the host document, \<open>openDialog\<close>
  returns a structural not-found failure (\<open>success = false\<close>) and leaves the world as it
  was, and \<open>fillWorkingHours\<close> returns that failure before any readiness polling begins:
  no polling attempt is made and the host document is not clicked. When the trigger
  control is present, \<open>openDialog\<close> clicks it once and succeeds, whether or not a dialog
  container exists.
\<close>

theorem openDialog_without_trigger:
  "(\<not> trigger (page w) \<longrightarrow>
      openDialog host w =
        (failure (ascii ''Dialog trigger element not found. Make sure you're on the correct page.''), w) \<and>
      \<not> success (fst (openDialog host w)) \<and>
      fillWorkingHours host cfg startTime endTime h w =
        (failure (ascii ''Dialog trigger element not found. Make sure you're on the correct page.''), w) \<and>
      waitAttempts (snd (fillWorkingHours host cfg startTime endTime h w)) = waitAttempts w \<and>
      triggerClicks (snd (fillWorkingHours host cfg startTime endTime h w)) = triggerClicks w \<and>
      clock (snd (fillWorkingHours host cfg startTime endTime h w)) = clock w) \<and>
   (trigger (page w) \<longrightarrow>
      success (fst (openDialog host w)) \<and>
      triggerClicks (snd (openDialog host w)) = triggerClicks w + 1 \<and>
      waitAttempts (snd (openDialog host w)) = waitAttempts w)"
  by (simp add: openDialog_def fillWorkingHours_def failure_def succeeded_def Let_def
      sleep_fields react_fields)

theorem openDialog_without_trigger_witness:
  "trigger (page (worldOf pageWithoutTrigger)) = False \<and>
   success (fst (openDialog idleHost (worldOf pageWithoutTrigger))) = False \<and>
   fillWorkingHours idleHost threeRetries (ascii ''09:00'') (ascii ''18:00'') False
       (worldOf pageWithoutTrigger) =
     (failure (ascii ''Dialog trigger element not found. Make sure you're on the correct page.''),
      worldOf pageWithoutTrigger) \<and>
   waitAttempts (snd (fillWorkingHours idleHost threeRetries (ascii ''09:00'') (ascii ''18:00'') False
       (worldOf pageWithoutTrigger))) = 0 \<and>
   triggerClicks (snd (fillWorkingHours idleHost threeRetries (ascii ''09:00'') (ascii ''18:00'') False
       (worldOf pageWithoutTrigger))) = 0"
proof -
  have t: "\<not> trigger (page (worldOf pageWithoutTrigger))"
    by (simp add: worldOf_def pageWithoutTrigger_def)
  from openDialog_without_trigger [of "worldOf pageWithoutTrigger" idleHost threeRetries
      "ascii ''09:00''" "ascii ''18:00''" False] t
  show ?thesis by (simp add: failure_def worldOf_def)
qed


end
